theory Spec2Isabelle
  imports Complex_Main
begin

section \<open>Python strings\<close>

text \<open>
  A Python \<open>str\<close> is modelled as a \<open>string\<close> whose characters are the code points
  below 256. \<open>py_isspace\<close> is \<open>str.isspace\<close> on one such code point; it is the class
  that \<open>str.strip\<close>, \<open>str.rstrip\<close> and the regular expression \<open>\s\<close> use.
\<close>

definition py_isspace :: "char \<Rightarrow> bool" where
  "py_isspace c =
     (let n = (of_char c :: nat)
      in (9 \<le> n \<and> n \<le> 13) \<or> (28 \<le> n \<and> n \<le> 32) \<or> n = 133 \<or> n = 160)"

definition lstrip :: "string \<Rightarrow> string" where
  "lstrip s = dropWhile py_isspace s"

definition rstrip :: "string \<Rightarrow> string" where
  "rstrip s = rev (dropWhile py_isspace (rev s))"

definition strip :: "string \<Rightarrow> string" where
  "strip s = lstrip (rstrip s)"

text \<open>\<open>s.rstrip(",")\<close>: every trailing comma goes.\<close>

definition rstrip_comma :: "string \<Rightarrow> string" where
  "rstrip_comma s = rev (dropWhile (\<lambda>c. c = CHR '','') (rev s))"

text \<open>\<open>str(n)\<close> for a non-negative integer.\<close>

definition digit_char :: "nat \<Rightarrow> char" where
  "digit_char d = char_of (48 + d)"

fun str_nat :: "nat \<Rightarrow> string" where
  "str_nat n = (if n < 10 then [digit_char n] else str_nat (n div 10) @ [digit_char (n mod 10)])"

declare str_nat.simps [simp del]

text \<open>
  \<open>list(dict.fromkeys(xs))\<close>: the keys of a dict in insertion order, so every element
  once, at the place of its first occurrence. \<open>fromkeys_acc\<close> is the dict being filled.
\<close>

fun fromkeys_acc :: "'a list \<Rightarrow> 'a list \<Rightarrow> 'a list" where
  "fromkeys_acc seen [] = seen"
| "fromkeys_acc seen (x # xs) =
     fromkeys_acc (if x \<in> set seen then seen else seen @ [x]) xs"

definition dict_fromkeys :: "'a list \<Rightarrow> 'a list" where
  "dict_fromkeys xs = fromkeys_acc [] xs"

text \<open>\<open>s.startswith(p)\<close>.\<close>

definition startswith :: "string \<Rightarrow> string \<Rightarrow> bool" where
  "startswith s p = (take (length p) s = p)"


section \<open>json.loads: the texts it accepts\<close>

text \<open>
  \<open>json.loads\<close> belongs to the Python library. The extraction below takes the
  question it asks of it, whether a text decodes without \<open>JSONDecodeError\<close>, as a
  parameter. \<open>json_accepts\<close> is that question answered after the decoder's grammar:
  blanks are space, tab, line feed and carriage return; a string has no raw control
  character and only the escapes of the standard; a number is an optional sign, an integer
  part, an optional fraction and an optional exponent; \<open>NaN\<close>, \<open>Infinity\<close> and
  \<open>-Infinity\<close> are taken as well. The first argument of the three mutually recursive
  scanners bounds the nesting and the number of members; \<open>json_accepts\<close> gives them
  the length of the text plus one.
\<close>

definition json_ws :: "char \<Rightarrow> bool" where
  "json_ws c = (c = CHR '' '' \<or> c = CHR 0x09 \<or> c = CHR 0x0A \<or> c = CHR 0x0D)"

definition skip_ws :: "string \<Rightarrow> string" where
  "skip_ws s = dropWhile json_ws s"

definition is_digit :: "char \<Rightarrow> bool" where
  "is_digit c = (let n = (of_char c :: nat) in 48 \<le> n \<and> n \<le> 57)"

definition is_hex :: "char \<Rightarrow> bool" where
  "is_hex c = (let n = (of_char c :: nat)
               in (48 \<le> n \<and> n \<le> 57) \<or> (65 \<le> n \<and> n \<le> 70) \<or> (97 \<le> n \<and> n \<le> 102))"

fun scan_string :: "string \<Rightarrow> string option" where
  "scan_string [] = None"
| "scan_string (c # cs) =
     (if c = CHR 0x22 then Some cs
      else if c = CHR 0x5C then
        (case cs of
           [] \<Rightarrow> None
         | e # es \<Rightarrow>
             if e \<in> set [CHR 0x22, CHR 0x5C, CHR ''/'', CHR ''b'', CHR ''f'', CHR ''n'', CHR ''r'', CHR ''t'']
               then scan_string es
             else if e = CHR ''u'' then
               (case es of
                  h1 # h2 # h3 # h4 # r \<Rightarrow>
                    if is_hex h1 \<and> is_hex h2 \<and> is_hex h3 \<and> is_hex h4 then scan_string r else None
                | _ \<Rightarrow> None)
             else None)
      else if (of_char c :: nat) < 32 then None
      else scan_string cs)"

definition scan_digits :: "string \<Rightarrow> string option" where
  "scan_digits s = (if takeWhile is_digit s = [] then None else Some (dropWhile is_digit s))"

definition scan_frac :: "string \<Rightarrow> string" where
  "scan_frac s =
     (case s of
        c # cs \<Rightarrow> (if c = CHR ''.'' then (case scan_digits cs of Some r \<Rightarrow> r | None \<Rightarrow> s) else s)
      | [] \<Rightarrow> s)"

definition scan_exp :: "string \<Rightarrow> string" where
  "scan_exp s =
     (case s of
        c # cs \<Rightarrow>
          (if c = CHR ''e'' \<or> c = CHR ''E'' then
             (case scan_digits (case cs of g # gs \<Rightarrow> (if g = CHR ''+'' \<or> g = CHR ''-'' then gs else cs) | [] \<Rightarrow> cs) of
                Some r \<Rightarrow> r | None \<Rightarrow> s)
           else s)
      | [] \<Rightarrow> s)"

definition scan_number :: "string \<Rightarrow> string option" where
  "scan_number s =
     (let t = (case s of c # cs \<Rightarrow> (if c = CHR ''-'' then cs else s) | [] \<Rightarrow> s)
      in case t of
           [] \<Rightarrow> None
         | d # ds \<Rightarrow>
             if d = CHR ''0'' then Some (scan_exp (scan_frac ds))
             else if is_digit d then Some (scan_exp (scan_frac (dropWhile is_digit ds)))
             else None)"

definition scan_literal :: "string \<Rightarrow> string option" where
  "scan_literal s =
     (if startswith s ''null'' then Some (drop 4 s)
      else if startswith s ''true'' then Some (drop 4 s)
      else if startswith s ''false'' then Some (drop 5 s)
      else if startswith s ''NaN'' then Some (drop 3 s)
      else if startswith s ''Infinity'' then Some (drop 8 s)
      else if startswith s ''-Infinity'' then Some (drop 9 s)
      else scan_number s)"

fun scan_value :: "nat \<Rightarrow> string \<Rightarrow> string option"
  and scan_members :: "nat \<Rightarrow> string \<Rightarrow> string option"
  and scan_elements :: "nat \<Rightarrow> string \<Rightarrow> string option"
where
  "scan_value 0 s = None"
| "scan_value (Suc n) [] = None"
| "scan_value (Suc n) (c # cs) =
     (if c = CHR 0x22 then scan_string cs
      else if c = CHR ''{'' then
        (case skip_ws cs of
           [] \<Rightarrow> None
         | k # ks \<Rightarrow> if k = CHR ''}'' then Some ks else scan_members n (k # ks))
      else if c = CHR ''['' then
        (case skip_ws cs of
           [] \<Rightarrow> None
         | k # ks \<Rightarrow> if k = CHR '']'' then Some ks else scan_elements n (k # ks))
      else scan_literal (c # cs))"
| "scan_members 0 s = None"
| "scan_members (Suc n) [] = None"
| "scan_members (Suc n) (c # cs) =
     (if c = CHR 0x22 then
        (case scan_string cs of
             None \<Rightarrow> None
           | Some r1 \<Rightarrow>
               (case skip_ws r1 of
                  [] \<Rightarrow> None
                | k # ks \<Rightarrow>
                    if k = CHR '':'' then
                      (case scan_value n (skip_ws ks) of
                         None \<Rightarrow> None
                       | Some r2 \<Rightarrow>
                           (case skip_ws r2 of
                              [] \<Rightarrow> None
                            | e # es \<Rightarrow>
                                if e = CHR ''}'' then Some es
                                else if e = CHR '','' then scan_members n (skip_ws es)
                                else None))
                    else None))
      else None)"
| "scan_elements 0 s = None"
| "scan_elements (Suc n) s =
     (case scan_value n s of
        None \<Rightarrow> None
      | Some r \<Rightarrow>
          (case skip_ws r of
             [] \<Rightarrow> None
           | e # es \<Rightarrow>
               if e = CHR '']'' then Some es
               else if e = CHR '','' then scan_elements n (skip_ws es)
               else None))"

definition json_accepts :: "string \<Rightarrow> bool" where
  "json_accepts s =
     (case scan_value (Suc (length s)) (skip_ws s) of
        None \<Rightarrow> False
      | Some r \<Rightarrow> skip_ws r = [])"


section \<open>Output extraction (agents/enrichment_agent.py, _extract_json)\<close>

text \<open>
  \<open>re.search\<close> tries the start positions from left to right; \<open>re_search m\<close> is the
  first position at which the matcher \<open>m\<close> succeeds.

  \<open>match_fence\<close> is the pattern of the fenced block at one position: three backquotes,
  an optional \<open>json\<close>, blanks, then the group: an opening brace and the shortest
  run of characters up to a closing brace that blanks and three backquotes follow.
  \<open>greedy_braces\<close> is the pattern brace, anything, brace with a greedy middle: from the
  first opening brace to the last closing brace after it. \<open>open_brace_tail\<close> is the
  pattern brace, anything: from the first opening brace to the end. \<open>repair\<close> is
  \<open>rstrip().rstrip(",") + "\n}"\<close>.
\<close>

fun re_search :: "(string \<Rightarrow> 'a option) \<Rightarrow> string \<Rightarrow> 'a option" where
  "re_search m [] = m []"
| "re_search m (c # cs) = (case m (c # cs) of Some r \<Rightarrow> Some r | None \<Rightarrow> re_search m cs)"

fun lazy_close :: "string \<Rightarrow> string \<Rightarrow> string option" where
  "lazy_close acc [] = None"
| "lazy_close acc (c # cs) =
     (if c = CHR ''}'' \<and> startswith (dropWhile py_isspace cs) ''```''
      then Some (rev (c # acc))
      else lazy_close (c # acc) cs)"

definition match_fence :: "string \<Rightarrow> string option" where
  "match_fence s =
     (if startswith s ''```'' then
        (let s1 = drop 3 s;
             s2 = (if startswith s1 ''json'' then drop 4 s1 else s1)
         in case dropWhile py_isspace s2 of
              [] \<Rightarrow> None
            | b # body \<Rightarrow> if b = CHR ''{'' then lazy_close [b] body else None)
      else None)"

definition fenced_object :: "string \<Rightarrow> string option" where
  "fenced_object t = re_search match_fence t"

definition upto_last :: "char \<Rightarrow> string \<Rightarrow> string" where
  "upto_last c s = rev (dropWhile (\<lambda>x. x \<noteq> c) (rev s))"

definition greedy_braces :: "string \<Rightarrow> string option" where
  "greedy_braces t =
     (case dropWhile (\<lambda>c. c \<noteq> CHR ''{'') t of
        [] \<Rightarrow> None
      | b # rest \<Rightarrow> (if upto_last (CHR ''}'') rest = [] then None
                     else Some (b # upto_last (CHR ''}'') rest)))"

definition open_brace_tail :: "string \<Rightarrow> string option" where
  "open_brace_tail t =
     (case dropWhile (\<lambda>c. c \<noteq> CHR ''{'') t of [] \<Rightarrow> None | b # rest \<Rightarrow> Some (b # rest))"

definition repair :: "string \<Rightarrow> string" where
  "repair p = rstrip_comma (rstrip p) @ [CHR 0x0A, CHR ''}'']"

definition extract_json :: "(string \<Rightarrow> bool) \<Rightarrow> string \<Rightarrow> string option" where
  "extract_json accepts text0 =
     (if text0 = [] then None
      else
        let text = strip text0 in
        if startswith text ''{'' \<and> accepts text then Some text
        else case (case fenced_object text of
                     Some cb \<Rightarrow> (if accepts cb then Some cb else None)
                   | None \<Rightarrow> None) of
          Some r \<Rightarrow> Some r
        | None \<Rightarrow>
           (case (case greedy_braces text of
                    Some jm \<Rightarrow> (if accepts jm then Some jm else None)
                  | None \<Rightarrow> None) of
              Some r \<Rightarrow> Some r
            | None \<Rightarrow>
               (case open_brace_tail text of
                  Some p \<Rightarrow> (if accepts (repair p) then Some (repair p) else None)
                | None \<Rightarrow> None)))"





section \<open>Settings and the data model\<close>

text \<open>\<open>core/config.py\<close>: the settings the job pipeline reads.\<close>

record settings =
  groq_api_key_resolved :: string
  GROQ_MODEL :: string
  GROQ_MAX_TOOL_ITERATIONS :: int
  MAX_CONCURRENT_JOBS_PER_ORG :: int
  WORKER_COMMIT_BATCH_SIZE :: int

definition default_settings :: settings where
  "default_settings =
     \<lparr> groq_api_key_resolved = [],
       GROQ_MODEL = ''llama-3.3-70b-versatile'',
       GROQ_MAX_TOOL_ITERATIONS = 15,
       MAX_CONCURRENT_JOBS_PER_ORG = 3,
       WORKER_COMMIT_BATCH_SIZE = 10 \<rparr>"

text \<open>
  \<open>db/models.py\<close>. \<open>Job.status\<close> is a string column; these are the values the
  code writes. UUIDs are natural numbers, timestamps are seconds.
\<close>

datatype job_status = Queued | Running | Completed | Partial | Failed | Cancelled

record job =
  job_id :: nat
  organization_id :: nat
  status :: job_status
  companies :: "string list"
  websites :: "string \<rightharpoonup> string"
  total_items :: int
  completed_items :: int
  failed_items :: int
  progress_pct :: real
  celery_task_id :: "string option"
  error_message :: "string option"
  credits_used :: int
  created_at :: int
  started_at :: "int option"
  completed_at :: "int option"

text \<open>
  An \<open>EnrichmentResult\<close> row: the columns that identify it and that the pipeline
  computes; the enriched profile columns are copied from the parsed object and decide
  nothing.
\<close>

record enrichment_result =
  r_job_id :: "nat option"
  r_organization_id :: nat
  input_name :: string
  r_status :: string
  r_error_message :: "string option"
  tokens_used :: int
  tool_calls_made :: int

text \<open>
  A \<open>UsageLog\<close> row. \<open>u_company\<close> is the entry \<open>company\<close> of its
  \<open>extra_data\<close>; \<open>u_source\<close> is the entry \<open>source\<close>, which only the
  orchestrator writes (\<open>batch_job\<close>) and which is set to \<open>agent\<close> here for the rows
  of the agent.
\<close>

record usage_log =
  u_organization_id :: nat
  u_job_id :: "nat option"
  action :: string
  credits_consumed :: int
  u_tokens_used :: int
  u_company :: string
  u_source :: string

record db =
  jobs :: "job list"
  results :: "enrichment_result list"
  usage_logs :: "usage_log list"

definition db_get_job :: "db \<Rightarrow> nat \<Rightarrow> job option" where
  "db_get_job d jid = List.find (\<lambda>j. job_id j = jid) (jobs d)"

text \<open>\<open>UPDATE jobs SET ... WHERE ...\<close>: every row the condition selects is rewritten.\<close>

definition update_jobs :: "(job \<Rightarrow> bool) \<Rightarrow> (job \<Rightarrow> job) \<Rightarrow> db \<Rightarrow> db" where
  "update_jobs cond upd d = d\<lparr>jobs := map (\<lambda>j. if cond j then upd j else j) (jobs d)\<rparr>"


section \<open>Batch submission (api/main.py, create_job)\<close>

datatype http_error = HTTPException int string

record create_job_request =
  req_companies :: "string list"
  req_websites :: "string \<rightharpoonup> string"

definition active_jobs :: "db \<Rightarrow> nat \<Rightarrow> int" where
  "active_jobs d org =
     int (length (filter (\<lambda>j. organization_id j = org \<and> status j \<in> {Queued, Running}) (jobs d)))"

definition normalize_companies :: "string list \<Rightarrow> string list" where
  "normalize_companies cs = dict_fromkeys (map strip (filter (\<lambda>c. strip c \<noteq> []) cs))"

text \<open>
  \<open>new_id\<close> is the UUID the row gets, \<open>task_id\<close> the identifier the queue returns,
  \<open>now\<close> the clock. The result is the error raised or the new database and job row.
\<close>

definition create_job ::
  "settings \<Rightarrow> int \<Rightarrow> nat \<Rightarrow> string \<Rightarrow> nat \<Rightarrow> db \<Rightarrow> create_job_request \<Rightarrow> http_error + (db \<times> job)"
where
  "create_job cfg now new_id task_id org d req =
     (if req_companies req = [] then Inl (HTTPException 400 ''No companies provided'')
      else if length (req_companies req) > 500 then Inl (HTTPException 400 ''Max 500 companies per job'')
      else if active_jobs d org \<ge> MAX_CONCURRENT_JOBS_PER_ORG cfg
        then Inl (HTTPException 429 ''Max concurrent jobs reached'')
      else
        let cs = normalize_companies (req_companies req);
            j = \<lparr> job_id = new_id, organization_id = org, status = Queued,
                  companies = cs, websites = req_websites req,
                  total_items = int (length cs), completed_items = 0, failed_items = 0,
                  progress_pct = 0, celery_task_id = Some task_id, error_message = None,
                  credits_used = 0, created_at = now, started_at = None,
                  completed_at = None \<rparr>
        in Inr (d\<lparr>jobs := jobs d @ [j]\<rparr>, j))"


section \<open>Python values and exceptions\<close>

text \<open>
  What \<open>json.loads\<close> returns: the tool arguments the model sends are such values.
  A dict is the list of its items (keys unique).
\<close>

datatype json =
    JNull
  | JBool bool
  | JInt int
  | JFloat real
  | JStr string
  | JArr "json list"
  | JObj "(string \<times> json) list"

datatype exc_class =
    KeyError | TypeError | AttributeError | IndexError | ValueError
  | ZeroDivisionError | IntegrityError | NetworkError | SoftTimeLimitExceeded

text \<open>An exception: its class and \<open>str(e)\<close>.\<close>

datatype py_exception = Raise exc_class string

fun exc_str :: "py_exception \<Rightarrow> string" where
  "exc_str (Raise c m) = m"

fun exc_class_of :: "py_exception \<Rightarrow> exc_class" where
  "exc_class_of (Raise c m) = c"

fun py_type_name :: "json \<Rightarrow> string" where
  "py_type_name JNull = ''NoneType''"
| "py_type_name (JBool b) = ''bool''"
| "py_type_name (JInt n) = ''int''"
| "py_type_name (JFloat x) = ''float''"
| "py_type_name (JStr s) = ''str''"
| "py_type_name (JArr xs) = ''list''"
| "py_type_name (JObj kvs) = ''dict''"

definition quoted :: "string \<Rightarrow> string" where
  "quoted s = [CHR 0x27] @ s @ [CHR 0x27]"

text \<open>\<open>i[key]\<close> with a string key.\<close>

fun py_getitem :: "json \<Rightarrow> string \<Rightarrow> py_exception + json" where
  "py_getitem (JObj kvs) k =
     (case map_of kvs k of
        Some v \<Rightarrow> Inr v
      | None \<Rightarrow> Inl (Raise KeyError (quoted k)))"
| "py_getitem (JArr xs) k = Inl (Raise TypeError ''list indices must be integers or slices, not str'')"
| "py_getitem (JStr s) k = Inl (Raise TypeError (''string indices must be integers, not '' @ quoted ''str''))"
| "py_getitem v k =
     Inl (Raise TypeError (quoted (py_type_name v) @ '' object is not subscriptable''))"

text \<open>\<open>i.get(key, default)\<close>.\<close>

fun py_get :: "json \<Rightarrow> string \<Rightarrow> json \<Rightarrow> py_exception + json" where
  "py_get (JObj kvs) k dflt = Inr (case map_of kvs k of Some v \<Rightarrow> v | None \<Rightarrow> dflt)"
| "py_get v k dflt =
     Inl (Raise AttributeError
           (quoted (py_type_name v) @ '' object has no attribute '' @ quoted ''get''))"


section \<open>Tool executor (agents/tools.py)\<close>

text \<open>
  The body of each tool's \<open>try\<close> block sends a request and digests the answer; it is
  a parameter here: what the block returns, or the exception raised in it.
  \<open>str_of\<close> is Python's \<open>str\<close> on a decoded value, which the f-strings call.
\<close>

record net =
  net_search :: "json \<Rightarrow> json \<Rightarrow> py_exception + string"
  net_scrape :: "string \<Rightarrow> json \<Rightarrow> py_exception + string"
  net_find :: "json \<Rightarrow> py_exception + string"
  str_of :: "json \<Rightarrow> string"

definition search_web :: "net \<Rightarrow> json \<Rightarrow> json \<Rightarrow> string" where
  "search_web nw query num_results =
     (case net_search nw query num_results of
        Inr s \<Rightarrow> s
      | Inl e \<Rightarrow> ''Search error: '' @ exc_str e)"

text \<open>The test on the scheme stands before the \<open>try\<close>: it raises on a url that is no string.\<close>

definition scrape_website :: "net \<Rightarrow> json \<Rightarrow> json \<Rightarrow> py_exception + string" where
  "scrape_website nw url max_chars =
     (case url of
        JStr u \<Rightarrow>
          (let u' = (if startswith u ''http://'' \<or> startswith u ''https://'' then u
                     else ''https://'' @ u)
           in Inr (case net_scrape nw u' max_chars of
                     Inr s \<Rightarrow> s
                   | Inl e \<Rightarrow> ''Scrape error for '' @ u' @ '': '' @ exc_str e))
      | _ \<Rightarrow>
          Inl (Raise AttributeError
                (quoted (py_type_name url) @ '' object has no attribute '' @ quoted ''startswith'')))"

definition find_company_website :: "net \<Rightarrow> json \<Rightarrow> string" where
  "find_company_website nw company_name =
     (case net_find nw company_name of
        Inr s \<Rightarrow> s
      | Inl e \<Rightarrow> ''Error: '' @ exc_str e)"

definition get_linkedin_info :: "net \<Rightarrow> json \<Rightarrow> string" where
  "get_linkedin_info nw company_name =
     search_web nw (JStr (''site:linkedin.com/company '' @ str_of nw company_name)) (JInt 3)"

text \<open>\<open>tool_map.get(tool_name)\<close>: the handler of a tool, each a lambda over the input.\<close>

definition tool_map :: "net \<Rightarrow> string \<Rightarrow> (json \<Rightarrow> py_exception + string) option" where
  "tool_map nw tool_name =
     (if tool_name = ''search_web'' then
        Some (\<lambda>i. case py_getitem i ''query'' of
                     Inl e \<Rightarrow> Inl e
                   | Inr q \<Rightarrow>
                       (case py_get i ''num_results'' (JInt 5) of
                          Inl e \<Rightarrow> Inl e
                        | Inr n \<Rightarrow> Inr (search_web nw q n)))
      else if tool_name = ''scrape_website'' then
        Some (\<lambda>i. case py_getitem i ''url'' of
                     Inl e \<Rightarrow> Inl e
                   | Inr u \<Rightarrow>
                       (case py_get i ''max_chars'' (JInt 6000) of
                          Inl e \<Rightarrow> Inl e
                        | Inr n \<Rightarrow> scrape_website nw u n))
      else if tool_name = ''find_company_website'' then
        Some (\<lambda>i. case py_getitem i ''company_name'' of
                     Inl e \<Rightarrow> Inl e
                   | Inr c \<Rightarrow> Inr (find_company_website nw c))
      else if tool_name = ''get_linkedin_info'' then
        Some (\<lambda>i. case py_getitem i ''company_name'' of
                     Inl e \<Rightarrow> Inl e
                   | Inr c \<Rightarrow> Inr (get_linkedin_info nw c))
      else None)"

text \<open>
  The result is what the call returns (\<open>Inr\<close>) or the exception that leaves it
  (\<open>Inl\<close>).
\<close>

definition execute_tool :: "net \<Rightarrow> string \<Rightarrow> json \<Rightarrow> py_exception + string" where
  "execute_tool nw tool_name tool_input =
     (case tool_map nw tool_name of
        None \<Rightarrow> Inr (''Unknown tool: '' @ tool_name)
      | Some handler \<Rightarrow>
          (case handler tool_input of
             Inr s \<Rightarrow> Inr s
           | Inl e \<Rightarrow> Inr (''Tool error ('' @ tool_name @ ''): '' @ exc_str e)))"


section \<open>Model calls with retries (agents/enrichment_agent.py, _call_groq_with_retry)\<close>

record tool_call =
  tc_id :: string
  tc_name :: string
  tc_args :: "json option"

record choice =
  finish_reason :: string
  content :: "string option"
  tool_calls :: "tool_call list"

record response =
  usage :: "(int option \<times> int option) option"
  choices :: "choice list"

text \<open>
  The classes the wrapper tells apart, in the order of its \<open>except\<close> clauses:
  a timeout, a rate limit, another error of the provider, any other exception.
\<close>

datatype groq_error = APITimeoutError | RateLimitError | APIError | UnexpectedError

datatype api_outcome = Returns response | Raises groq_error

datatype message =
    SystemMsg string
  | UserMsg string
  | AssistantMsg string "tool_call list"
  | ToolMsg string string

record agent =
  model :: string
  max_iterations :: int
  max_retries :: nat
  base_delay :: real

text \<open>
  \<open>outcomes k\<close> is what the provider does at attempt \<open>k\<close>. The result is the response
  (\<open>None\<close> for Python's \<open>None\<close>), the number of requests sent and the sleeps, in order.
\<close>

definition then_sleep :: "real \<Rightarrow> response option \<times> nat \<times> real list \<Rightarrow> response option \<times> nat \<times> real list" where
  "then_sleep w r = (fst r, fst (snd r), w # snd (snd r))"

function call_attempts :: "agent \<Rightarrow> (nat \<Rightarrow> api_outcome) \<Rightarrow> nat \<Rightarrow> response option \<times> nat \<times> real list" where
  "call_attempts ag outcomes attempt =
     (if attempt < max_retries ag then
        (case outcomes attempt of
           Returns r \<Rightarrow> (Some r, Suc attempt, [])
         | Raises APITimeoutError \<Rightarrow>
             then_sleep (base_delay ag * 2 ^ attempt) (call_attempts ag outcomes (Suc attempt))
         | Raises RateLimitError \<Rightarrow>
             then_sleep (base_delay ag * 2 ^ attempt) (call_attempts ag outcomes (Suc attempt))
         | Raises APIError \<Rightarrow>
             (if int attempt < int (max_retries ag) - 1
              then then_sleep (base_delay ag) (call_attempts ag outcomes (Suc attempt))
              else (None, Suc attempt, []))
         | Raises UnexpectedError \<Rightarrow> (None, Suc attempt, []))
      else (None, attempt, []))"
  by pat_completeness auto
termination
  by (relation "measure (\<lambda>(ag, outcomes, attempt). max_retries ag - attempt)") auto

declare call_attempts.simps [simp del]

definition call_groq_with_retry :: "agent \<Rightarrow> (nat \<Rightarrow> api_outcome) \<Rightarrow> response option \<times> nat \<times> real list" where
  "call_groq_with_retry ag outcomes = call_attempts ag outcomes 0"


section \<open>Enrichment agent (agents/enrichment_agent.py)\<close>

text \<open>
  \<open>EnrichmentAgent()\<close>: construction fails without a key; the retry count and the
  base delay are fixed there.
\<close>

definition EnrichmentAgent :: "settings \<Rightarrow> py_exception + agent" where
  "EnrichmentAgent cfg =
     (if groq_api_key_resolved cfg = [] then Inl (Raise ValueError ''No Groq API key found.'')
      else Inr \<lparr> model = ''llama-3.3-70b-versatile'',
                 max_iterations = GROQ_MAX_TOOL_ITERATIONS cfg,
                 max_retries = 3,
                 base_delay = 2 \<rparr>)"

text \<open>
  The state of the loop in \<open>enrich_company\<close>: its local variables, and \<open>requests\<close>,
  which is no variable of the source: the number of requests sent to the provider so
  far, kept to state the cost of the loop.
\<close>

record loop_state =
  iteration :: int
  total_tokens :: int
  tool_calls_count :: int
  final_text :: string
  messages :: "message list"
  requests :: nat

text \<open>\<open>x or 0\<close> on an optional count.\<close>

definition or0 :: "int option \<Rightarrow> int" where
  "or0 x = (case x of Some n \<Rightarrow> n | None \<Rightarrow> 0)"

text \<open>\<open>msg.content or ""\<close>.\<close>

definition content_or_empty :: "choice \<Rightarrow> string" where
  "content_or_empty ch = (case content ch of Some s \<Rightarrow> s | None \<Rightarrow> [])"

text \<open>
  The \<open>for tc in msg.tool_calls\<close> loop. Arguments that do not decode count as the
  empty dict. The log line calls \<open>args.keys()\<close>, which raises on arguments that decode to
  anything but a dict; nothing catches it inside \<open>enrich_company\<close>.
\<close>

fun run_tool_calls :: "net \<Rightarrow> tool_call list \<Rightarrow> int \<times> message list \<Rightarrow> py_exception + (int \<times> message list)" where
  "run_tool_calls nw [] st = Inr st"
| "run_tool_calls nw (tc # tcs) (cnt, msgs) =
     (let args = (case tc_args tc of Some a \<Rightarrow> a | None \<Rightarrow> JObj [])
      in case args of
           JObj kvs \<Rightarrow>
             (case execute_tool nw (tc_name tc) args of
                Inl e \<Rightarrow> Inl e
              | Inr result \<Rightarrow> run_tool_calls nw tcs (cnt + 1, msgs @ [ToolMsg (tc_id tc) result]))
         | _ \<Rightarrow>
             Inl (Raise AttributeError
                   (quoted (py_type_name args) @ '' object has no attribute '' @ quoted ''keys'')))"

text \<open>
  \<open>provider it k msgs\<close> is what the provider does at attempt \<open>k\<close> of the call made in
  iteration \<open>it\<close> (counted from 1), given the conversation.
\<close>

function agent_loop ::
  "agent \<Rightarrow> net \<Rightarrow> (int \<Rightarrow> nat \<Rightarrow> message list \<Rightarrow> api_outcome) \<Rightarrow> loop_state \<Rightarrow> py_exception + loop_state"
where
  "agent_loop ag nw provider st =
     (if iteration st < max_iterations ag then
        (let it = iteration st + 1;
             called = call_groq_with_retry ag (\<lambda>k. provider it k (messages st));
             sent = requests st + fst (snd called)
         in case fst called of
           None \<Rightarrow> Inr (st\<lparr>iteration := it, requests := sent\<rparr>)
         | Some resp \<Rightarrow>
             (let tokens =
                    (case usage resp of
                       Some (p, c) \<Rightarrow> total_tokens st + (or0 p + or0 c)
                     | None \<Rightarrow> total_tokens st)
              in case choices resp of
                   [] \<Rightarrow> Inl (Raise IndexError ''list index out of range'')
                 | ch # _ \<Rightarrow>
                     if finish_reason ch = ''stop'' then
                       Inr (st\<lparr>iteration := it, total_tokens := tokens,
                               final_text := content_or_empty ch, requests := sent\<rparr>)
                     else if finish_reason ch = ''tool_calls'' \<and> tool_calls ch \<noteq> [] then
                       (case run_tool_calls nw (tool_calls ch)
                               (tool_calls_count st,
                                messages st @ [AssistantMsg (content_or_empty ch) (tool_calls ch)]) of
                          Inl e \<Rightarrow> Inl e
                        | Inr (cnt, msgs) \<Rightarrow>
                            agent_loop ag nw provider
                              (st\<lparr>iteration := it, total_tokens := tokens,
                                   tool_calls_count := cnt, messages := msgs, requests := sent\<rparr>))
                     else
                       Inr (st\<lparr>iteration := it, total_tokens := tokens,
                               final_text := (if content_or_empty ch \<noteq> [] then content_or_empty ch
                                              else final_text st),
                               requests := sent\<rparr>)))
      else Inr st)"
  by pat_completeness auto
termination
  by (relation "measure (\<lambda>(ag, nw, provider, st). nat (max_iterations ag - iteration st))") auto

declare agent_loop.simps [simp del]

text \<open>
  \<open>_save_result\<close>. A candidate that \<open>_extract_json\<close> returns starts with a brace and
  decodes, so it decodes to a dict; the test on the first character stands for
  \<open>isinstance(data, dict)\<close>. The row is added and flushed: the unique constraint
  \<open>uq_results_job_company\<close> on \<open>(job_id, input_name)\<close> rejects a second row of the
  same job and name (rows without a job are not compared).
\<close>

definition db_add_result :: "db \<Rightarrow> enrichment_result \<Rightarrow> py_exception + db" where
  "db_add_result d r =
     (if r_job_id r \<noteq> None \<and>
         (\<exists>x \<in> set (results d). r_job_id x = r_job_id r \<and> input_name x = input_name r)
      then Inl (Raise IntegrityError ''duplicate key value violates unique constraint uq_results_job_company'')
      else Inr (d\<lparr>results := results d @ [r]\<rparr>))"

definition save_result ::
  "(string \<Rightarrow> bool) \<Rightarrow> db \<Rightarrow> nat option \<Rightarrow> nat \<Rightarrow> string \<Rightarrow> string \<Rightarrow> int \<Rightarrow> int
     \<Rightarrow> py_exception + (db \<times> enrichment_result)"
where
  "save_result accepts d jid org company_name raw_text tokens n_tool_calls =
     (let outcome =
            (case extract_json accepts raw_text of
               Some json_str \<Rightarrow>
                 (if startswith json_str ''{'' then (''completed'', None)
                  else (''failed'', Some ''Not a dict''))
             | None \<Rightarrow> (''failed'', Some (''No JSON found. Preview: '' @ take 200 raw_text)));
          r = \<lparr> r_job_id = jid, r_organization_id = org, input_name = company_name,
                r_status = fst outcome, r_error_message = snd outcome,
                tokens_used = tokens, tool_calls_made = n_tool_calls \<rparr>
      in case db_add_result d r of
           Inl e \<Rightarrow> Inl e
         | Inr d' \<Rightarrow> Inr (d', r))"

definition SYSTEM_PROMPT :: string where
  "SYSTEM_PROMPT = ''You are AgentIQ, an elite business intelligence analyst.''"

text \<open>
  \<open>enrich_company\<close>. The prompt (abridged above) and the user turn are only handed to
  the provider. On success the row and one usage row are committed; an exception leaves
  the database as it was.
\<close>

definition enrich_company ::
  "agent \<Rightarrow> (string \<Rightarrow> bool) \<Rightarrow> net \<Rightarrow> (int \<Rightarrow> nat \<Rightarrow> message list \<Rightarrow> api_outcome) \<Rightarrow> db
     \<Rightarrow> nat option \<Rightarrow> nat \<Rightarrow> string \<Rightarrow> string option \<Rightarrow> py_exception + (db \<times> enrichment_result)"
where
  "enrich_company ag accepts nw provider d jid org company_name website_hint =
     (let user_content =
            ''Research this company thoroughly: '' @ company_name @
            (case website_hint of
               Some w \<Rightarrow> (if w \<noteq> [] then [CHR 0x0A] @ ''Website: '' @ w @ '' - scrape it directly.'' else [])
             | None \<Rightarrow> []);
          st0 = \<lparr> iteration = 0, total_tokens = 0, tool_calls_count = 0, final_text = [],
                  messages = [SystemMsg SYSTEM_PROMPT, UserMsg user_content], requests = 0 \<rparr>
      in case agent_loop ag nw provider st0 of
           Inl e \<Rightarrow> Inl e
         | Inr st \<Rightarrow>
             (case save_result accepts d jid org company_name (final_text st)
                     (total_tokens st) (tool_calls_count st) of
                Inl e \<Rightarrow> Inl e
              | Inr (d1, r) \<Rightarrow>
                  Inr (d1\<lparr>usage_logs := usage_logs d1 @
                            [\<lparr> u_organization_id = org, u_job_id = jid, action = ''enrichment'',
                               credits_consumed = 1, u_tokens_used = total_tokens st,
                               u_company = company_name, u_source = ''agent'' \<rparr>]\<rparr>, r)))"


section \<open>Job orchestrator (services/worker.py)\<close>

text \<open>
  The two progress updates of the loop. Each is one SQL \<open>UPDATE\<close> on the rows with the
  job's id; the right-hand sides read the row as it was. The division is by
  \<open>total_items\<close>, and the database raises on a zero divisor.
\<close>

definition completed_update :: "job \<Rightarrow> job" where
  "completed_update j =
     j\<lparr>completed_items := completed_items j + 1,
       progress_pct := real_of_int (completed_items j + 1) / real_of_int (total_items j) * 100,
       credits_used := credits_used j + 1\<rparr>"

definition failed_update :: "job \<Rightarrow> job" where
  "failed_update j =
     j\<lparr>failed_items := failed_items j + 1,
       progress_pct := real_of_int (completed_items j + failed_items j + 1)
                         / real_of_int (total_items j) * 100\<rparr>"

definition increment_completed :: "nat \<Rightarrow> db \<Rightarrow> py_exception + db" where
  "increment_completed jid d =
     (if \<exists>j \<in> set (jobs d). job_id j = jid \<and> total_items j = 0
      then Inl (Raise ZeroDivisionError ''division by zero'')
      else Inr (update_jobs (\<lambda>j. job_id j = jid) completed_update d))"

definition increment_failed :: "nat \<Rightarrow> db \<Rightarrow> py_exception + db" where
  "increment_failed jid d =
     (if \<exists>j \<in> set (jobs d). job_id j = jid \<and> total_items j = 0
      then Inl (Raise ZeroDivisionError ''division by zero'')
      else Inr (update_jobs (\<lambda>j. job_id j = jid) failed_update d))"

text \<open>
  The \<open>except\<close> branch of one item: a synthetic failed row with the message cut at 500
  characters, and the failure update. An exception raised here leaves the loop; the
  session is rolled back, so the database stays as it was when the branch was entered.
  The result is the database and the exception that leaves the loop, if any.
\<close>

definition item_failed :: "nat \<Rightarrow> nat \<Rightarrow> string \<Rightarrow> py_exception \<Rightarrow> db \<Rightarrow> db \<times> py_exception option" where
  "item_failed jid org company e d =
     (case db_add_result d
             \<lparr> r_job_id = Some jid, r_organization_id = org, input_name = company,
               r_status = ''failed'', r_error_message = Some (take 500 (exc_str e)),
               tokens_used = 0, tool_calls_made = 0 \<rparr> of
        Inl e' \<Rightarrow> (d, Some e')
      | Inr d1 \<Rightarrow>
          (case increment_failed jid d1 of
             Inl e' \<Rightarrow> (d, Some e')
           | Inr d2 \<Rightarrow> (d2, None)))"

text \<open>
  The body of the loop for the company at index \<open>i\<close>. The \<open>try\<close> block holds the call
  of the agent, a usage row of the orchestrator's own and the success update. Every item
  has a session of its own, which commits when it is left, so the batch commit after the
  \<open>try\<close> statement decides nothing, except that its test computes
  \<open>(i + 1) % WORKER_COMMIT_BATCH_SIZE\<close>: with a batch size of zero that raises and leaves
  the loop, and what the session had not committed is rolled back.
  \<open>try_item\<close> gives the database as last committed and the outcome of the \<open>try\<close>
  statement.
\<close>

definition py_or :: "string option \<Rightarrow> string option \<Rightarrow> string option" where
  "py_or a b = (case a of Some s \<Rightarrow> (if s \<noteq> [] then a else b) | None \<Rightarrow> b)"

definition try_item ::
  "agent \<Rightarrow> (string \<Rightarrow> bool) \<Rightarrow> net
     \<Rightarrow> (nat \<Rightarrow> int \<Rightarrow> nat \<Rightarrow> message list \<Rightarrow> api_outcome)
     \<Rightarrow> nat \<Rightarrow> nat \<Rightarrow> (string \<rightharpoonup> string) \<Rightarrow> nat \<Rightarrow> string \<Rightarrow> db
     \<Rightarrow> db \<times> (db \<times> py_exception option)"
where
  "try_item ag accepts nw provider jid org sites i company d =
     (let website_hint = py_or (sites company) (sites (str_nat i))
      in case enrich_company ag accepts nw (provider i) d (Some jid) org company website_hint of
           Inl e \<Rightarrow> (d, item_failed jid org company e d)
         | Inr (d1, r) \<Rightarrow>
             (let d2 = d1\<lparr>usage_logs := usage_logs d1 @
                           [\<lparr> u_organization_id = org, u_job_id = Some jid, action = ''enrichment'',
                              credits_consumed = 1, u_tokens_used = 0,
                              u_company = company, u_source = ''batch_job'' \<rparr>]\<rparr>
              in (d1, case increment_completed jid d2 of
                        Inl e \<Rightarrow> item_failed jid org company e d1
                      | Inr d3 \<Rightarrow> (d3, None))))"

definition process_company ::
  "settings \<Rightarrow> agent \<Rightarrow> (string \<Rightarrow> bool) \<Rightarrow> net
     \<Rightarrow> (nat \<Rightarrow> int \<Rightarrow> nat \<Rightarrow> message list \<Rightarrow> api_outcome)
     \<Rightarrow> nat \<Rightarrow> nat \<Rightarrow> (string \<rightharpoonup> string) \<Rightarrow> nat \<Rightarrow> string \<Rightarrow> db \<Rightarrow> db \<times> py_exception option"
where
  "process_company cfg ag accepts nw provider jid org sites i company d =
     (case try_item ag accepts nw provider jid org sites i company d of
        (committed, (d', Some e)) \<Rightarrow> (d', Some e)
      | (committed, (d', None)) \<Rightarrow>
          if WORKER_COMMIT_BATCH_SIZE cfg = 0
          then (committed, Some (Raise ZeroDivisionError ''integer modulo by zero''))
          else (d', None))"

text \<open>
  The loop over the companies, from index \<open>i\<close> on. \<open>deadline\<close> is the number of items
  after which the soft time limit of the task fires (\<open>None\<close>: it does not); the
  exception then arrives between two items and leaves the loop.
\<close>

fun run_items ::
  "settings \<Rightarrow> agent \<Rightarrow> (string \<Rightarrow> bool) \<Rightarrow> net
     \<Rightarrow> (nat \<Rightarrow> int \<Rightarrow> nat \<Rightarrow> message list \<Rightarrow> api_outcome)
     \<Rightarrow> nat option \<Rightarrow> nat \<Rightarrow> nat \<Rightarrow> (string \<rightharpoonup> string) \<Rightarrow> nat \<Rightarrow> string list \<Rightarrow> db
     \<Rightarrow> db \<times> py_exception option"
where
  "run_items cfg ag accepts nw provider deadline jid org sites i [] d = (d, None)"
| "run_items cfg ag accepts nw provider deadline jid org sites i (company # rest) d =
     (if deadline = Some i then (d, Some (Raise SoftTimeLimitExceeded ''SoftTimeLimitExceeded()''))
      else case process_company cfg ag accepts nw provider jid org sites i company d of
             (d', Some e) \<Rightarrow> (d', Some e)
           | (d', None) \<Rightarrow> run_items cfg ag accepts nw provider deadline jid org sites (Suc i) rest d')"

text \<open>Phase 1 and phase 3 of \<open>_run_job\<close>, and the two markers.\<close>

definition mark_running :: "int \<Rightarrow> string \<Rightarrow> nat \<Rightarrow> db \<Rightarrow> db" where
  "mark_running now task_id jid d =
     update_jobs (\<lambda>j. job_id j = jid)
       (\<lambda>j. j\<lparr>status := Running, started_at := Some now, celery_task_id := Some task_id\<rparr>) d"

definition mark_complete :: "int \<Rightarrow> nat \<Rightarrow> db \<Rightarrow> db" where
  "mark_complete now jid d =
     update_jobs (\<lambda>j. job_id j = jid)
       (\<lambda>j. j\<lparr>status := Completed, completed_at := Some now, progress_pct := 100\<rparr>) d"

definition mark_job_failed :: "int \<Rightarrow> nat \<Rightarrow> string \<Rightarrow> db \<Rightarrow> db" where
  "mark_job_failed now jid err d =
     update_jobs (\<lambda>j. job_id j = jid \<and> status j \<in> {Queued, Running})
       (\<lambda>j. j\<lparr>status := Failed, error_message := Some (take 1000 err), completed_at := Some now\<rparr>) d"

definition mark_job_partial :: "int \<Rightarrow> nat \<Rightarrow> string \<Rightarrow> db \<Rightarrow> db" where
  "mark_job_partial now jid msg d =
     update_jobs (\<lambda>j. job_id j = jid \<and> status j = Running)
       (\<lambda>j. j\<lparr>status := Partial, error_message := Some msg, completed_at := Some now\<rparr>) d"

text \<open>
  \<open>_run_job\<close>: the database it leaves and the exception that leaves it, if any.
  \<open>t0\<close> and \<open>t1\<close> are the clock at the start and at the end.
\<close>

definition run_job ::
  "settings \<Rightarrow> (string \<Rightarrow> bool) \<Rightarrow> net \<Rightarrow> (nat \<Rightarrow> int \<Rightarrow> nat \<Rightarrow> message list \<Rightarrow> api_outcome)
     \<Rightarrow> nat option \<Rightarrow> int \<Rightarrow> int \<Rightarrow> string \<Rightarrow> nat \<Rightarrow> nat \<Rightarrow> db \<Rightarrow> db \<times> py_exception option"
where
  "run_job cfg accepts nw provider deadline t0 t1 task_id jid org d =
     (case EnrichmentAgent cfg of
        Inl e \<Rightarrow> (d, Some e)
      | Inr ag \<Rightarrow>
          (case db_get_job d jid of
             None \<Rightarrow> (d, None)
           | Some j \<Rightarrow>
               (case run_items cfg ag accepts nw provider deadline jid org (websites j) 0 (companies j)
                       (mark_running t0 task_id jid d) of
                  (d', Some e) \<Rightarrow> (d', Some e)
                | (d', None) \<Rightarrow> (mark_complete t1 jid d', None))))"

text \<open>
  \<open>enrich_job_task\<close>, one delivery of the task: \<open>retries\<close> is the number of retries
  so far. The second component is what the queue sees.
\<close>

datatype task_end = Acknowledged | Retry | Raised

definition enrich_job_task ::
  "settings \<Rightarrow> (string \<Rightarrow> bool) \<Rightarrow> net \<Rightarrow> (nat \<Rightarrow> int \<Rightarrow> nat \<Rightarrow> message list \<Rightarrow> api_outcome)
     \<Rightarrow> nat option \<Rightarrow> int \<Rightarrow> int \<Rightarrow> string \<Rightarrow> nat \<Rightarrow> nat \<Rightarrow> nat \<Rightarrow> db \<Rightarrow> db \<times> task_end"
where
  "enrich_job_task cfg accepts nw provider deadline t0 t1 task_id retries jid org d =
     (case run_job cfg accepts nw provider deadline t0 t1 task_id jid org d of
        (d', None) \<Rightarrow> (d', Acknowledged)
      | (d', Some e) \<Rightarrow>
          if exc_class_of e = SoftTimeLimitExceeded then
            (mark_job_partial t1 jid
               (''Time limit exceeded (1 hour). Partial results are saved. '' @
                ''Re-launch the job with the remaining companies to continue.'') d', Acknowledged)
          else if retries < 3 then (d', Retry)
          else (mark_job_failed t1 jid (exc_str e) d', Raised))"


section \<open>The staleness sweep (core/job_recovery.py) and cancellation (api/main.py)\<close>

definition STUCK_THRESHOLD_HOURS :: int where
  "STUCK_THRESHOLD_HOURS = 2"

definition is_stuck :: "int \<Rightarrow> job \<Rightarrow> bool" where
  "is_stuck cutoff j =
     (status j \<in> {Running, Queued} \<and>
      (case started_at j of Some s \<Rightarrow> s < cutoff | None \<Rightarrow> created_at j < cutoff))"

text \<open>The database after the sweep and the number of jobs it reset.\<close>

definition stuck_job_cleanup :: "int \<Rightarrow> db \<Rightarrow> db \<times> nat" where
  "stuck_job_cleanup now d =
     (let cutoff = now - STUCK_THRESHOLD_HOURS * 3600
      in (update_jobs (is_stuck cutoff)
            (\<lambda>j. j\<lparr>status := Failed,
                    error_message := Some ''Auto-reset: job exceeded maximum runtime without completing'',
                    completed_at := Some now\<rparr>) d,
          length (filter (is_stuck cutoff) (jobs d))))"

fun status_str :: "job_status \<Rightarrow> string" where
  "status_str Queued = ''queued''"
| "status_str Running = ''running''"
| "status_str Completed = ''completed''"
| "status_str Partial = ''partial''"
| "status_str Failed = ''failed''"
| "status_str Cancelled = ''cancelled''"

definition cancel_job :: "int \<Rightarrow> nat \<Rightarrow> nat \<Rightarrow> db \<Rightarrow> http_error + db" where
  "cancel_job now org jid d =
     (case db_get_job d jid of
        None \<Rightarrow> Inl (HTTPException 404 ''Job not found'')
      | Some j \<Rightarrow>
          if organization_id j \<noteq> org then Inl (HTTPException 404 ''Job not found'')
          else if status j \<notin> {Queued, Running}
            then Inl (HTTPException 400 (''Cannot cancel a '' @ quoted (status_str (status j)) @ '' job''))
          else Inr (update_jobs (\<lambda>x. job_id x = jid)
                      (\<lambda>x. x\<lparr>status := Cancelled, completed_at := Some now\<rparr>) d))"

definition terminal :: "job_status \<Rightarrow> bool" where
  "terminal s = (s = Completed \<or> s = Partial \<or> s = Failed \<or> s = Cancelled)"


section \<open>The uniqueness constraint as a predicate\<close>

text \<open>
  \<open>key_free d jid c\<close>: the results hold no row of job \<open>jid\<close> for the name \<open>c\<close>.
  \<open>results_unique d\<close>: no two rows that have a job share their job and input name,
  which is what the constraint \<open>uq_results_job_company\<close> keeps.
\<close>

definition key_free :: "db \<Rightarrow> nat \<Rightarrow> string \<Rightarrow> bool" where
  "key_free d jid c = (\<forall>x \<in> set (results d). \<not> (r_job_id x = Some jid \<and> input_name x = c))"

definition results_unique :: "db \<Rightarrow> bool" where
  "results_unique d =
     distinct (map (\<lambda>r. (r_job_id r, input_name r)) (filter (\<lambda>r. r_job_id r \<noteq> None) (results d)))"


text \<open>
  \<open>job_rows d jid\<close>: the result rows of the job. \<open>job_backed d j\<close>: the two counters
  of the job row \<open>j\<close> are not negative, every unit of them is backed by a result row of
  the job, the rows of the job bear names of its item list, and \<open>total_items\<close> is the
  length of that list. \<open>db_invariant d\<close>: the primary key of \<open>jobs\<close>, the constraint
  \<open>uq_results_job_company\<close>, the foreign key \<open>enrichment_results.job_id\<close>, and every job
  row is backed.
\<close>

definition job_rows :: "db \<Rightarrow> nat \<Rightarrow> enrichment_result list" where
  "job_rows d jid = filter (\<lambda>r. r_job_id r = Some jid) (results d)"

definition job_backed :: "db \<Rightarrow> job \<Rightarrow> bool" where
  "job_backed d j =
     (0 \<le> completed_items j \<and> 0 \<le> failed_items j
    \<and> completed_items j + failed_items j \<le> int (length (job_rows d (job_id j)))
    \<and> set (map input_name (job_rows d (job_id j))) \<subseteq> set (companies j)
    \<and> total_items j = int (length (companies j)))"

definition db_invariant :: "db \<Rightarrow> bool" where
  "db_invariant d =
     (distinct (map job_id (jobs d)) \<and> results_unique d
    \<and> (\<forall>r \<in> set (results d). case r_job_id r of None \<Rightarrow> True | Some k \<Rightarrow> k \<in> set (map job_id (jobs d)))
    \<and> (\<forall>j \<in> set (jobs d). job_backed d j))"


section \<open>Classes of responses\<close>





section \<open>Sample inputs\<close>

text \<open>A network on which every request times out.\<close>

definition sample_net :: net where
  "sample_net =
     \<lparr> net_search = (\<lambda>q n. Inl (Raise NetworkError ''timed out'')),
       net_scrape = (\<lambda>u n. Inl (Raise NetworkError ''timed out'')),
       net_find = (\<lambda>c. Inl (Raise NetworkError ''timed out'')),
       str_of = (\<lambda>v. case v of JStr s \<Rightarrow> s | _ \<Rightarrow> ''None'') \<rparr>"

definition sample_settings :: settings where
  "sample_settings = default_settings\<lparr>groq_api_key_resolved := ''gsk_sample''\<rparr>"

definition sample_agent :: agent where
  "sample_agent = \<lparr> model = ''llama-3.3-70b-versatile'', max_iterations = 15, max_retries = 3, base_delay = 2 \<rparr>"

definition empty_db :: db where
  "empty_db = \<lparr> jobs = [], results = [], usage_logs = [] \<rparr>"

text \<open>A final answer with an empty object, and a response without any choice.\<close>

definition stop_response :: response where
  "stop_response =
     \<lparr> usage = Some (Some 10, Some 5),
       choices = [\<lparr> finish_reason = ''stop'', content = Some ''{}'', tool_calls = [] \<rparr>] \<rparr>"

definition no_choice_response :: response where
  "no_choice_response = \<lparr> usage = None, choices = [] \<rparr>"

text \<open>
  A batch of three names, the job row that \<open>create_job\<close> makes of it in the empty
  database (id 1, organization 7), and a provider that answers the first two items with
  a response without a choice and every later item with a final answer.
\<close>

definition sample_request :: create_job_request where
  "sample_request = \<lparr> req_companies = [''a'', ''b'', ''c''], req_websites = Map.empty \<rparr>"

definition queued_job :: job where
  "queued_job =
     \<lparr> job_id = 1, organization_id = 7, status = Queued, companies = [''a'', ''b'', ''c''],
       websites = Map.empty, total_items = 3, completed_items = 0, failed_items = 0,
       progress_pct = 0, celery_task_id = Some ''task-1'', error_message = None,
       credits_used = 0, created_at = 0, started_at = None, completed_at = None \<rparr>"

definition queued_db :: db where
  "queued_db = \<lparr> jobs = [queued_job], results = [], usage_logs = [] \<rparr>"

definition sample_provider :: "nat \<Rightarrow> int \<Rightarrow> nat \<Rightarrow> message list \<Rightarrow> api_outcome" where
  "sample_provider i it k msgs = (if i < 2 then Returns no_choice_response else Returns stop_response)"




section \<open>Facts about normalization\<close>

lemma set_fromkeys_acc: "set (fromkeys_acc seen xs) = set seen \<union> set xs"
  by (induction xs arbitrary: seen) auto

lemma distinct_fromkeys_acc: "distinct seen \<Longrightarrow> distinct (fromkeys_acc seen xs)"
  by (induction xs arbitrary: seen) auto

lemma fromkeys_acc_first_occurrence:
  "fromkeys_acc seen xs = seen @ rev (remdups (rev (filter (\<lambda>x. x \<notin> set seen) xs)))"
proof (induction xs arbitrary: seen)
  case Nil
  then show ?case by simp
next
  case (Cons x xs)
  show ?case
  proof (cases "x \<in> set seen")
    case True
    then show ?thesis using Cons.IH [of seen] by simp
  next
    case False
    have eq: "filter (\<lambda>y. y \<notin> set (seen @ [x])) xs = filter (\<lambda>y. y \<noteq> x) (filter (\<lambda>y. y \<notin> set seen) xs)"
      by (induction xs) auto
    have rd: "\<And>ys. remdups (rev ys @ [x]) = remdups (rev (filter (\<lambda>y. y \<noteq> x) ys)) @ [x]"
    proof -
      fix ys :: "'a list"
      show "remdups (rev ys @ [x]) = remdups (rev (filter (\<lambda>y. y \<noteq> x) ys)) @ [x]"
        by (induction ys rule: rev_induct) (auto simp: remdups_append2)
    qed
    show ?thesis
      using False Cons.IH [of "seen @ [x]"] by (simp add: rd conj_commute)
  qed
qed

lemma set_dict_fromkeys: "set (dict_fromkeys xs) = set xs"
  by (simp add: dict_fromkeys_def set_fromkeys_acc)

lemma distinct_dict_fromkeys: "distinct (dict_fromkeys xs)"
  by (simp add: dict_fromkeys_def distinct_fromkeys_acc)

lemma dict_fromkeys_first_occurrence: "dict_fromkeys xs = rev (remdups (rev xs))"
  by (simp add: dict_fromkeys_def fromkeys_acc_first_occurrence)

lemma length_dict_fromkeys_le: "length (dict_fromkeys xs) \<le> length xs"
proof -
  have "length (dict_fromkeys xs) = card (set xs)"
    using distinct_card [OF distinct_dict_fromkeys, of xs] by (simp add: set_dict_fromkeys)
  then show ?thesis by (simp add: card_length)
qed

lemma set_normalize_companies:
  "set (normalize_companies cs) = {strip c | c. c \<in> set cs \<and> strip c \<noteq> []}"
  by (auto simp: normalize_companies_def set_dict_fromkeys)

lemma distinct_normalize_companies: "distinct (normalize_companies cs)"
  by (simp add: normalize_companies_def distinct_dict_fromkeys)

lemma length_normalize_companies:
  "length (normalize_companies cs) = card {strip c | c. c \<in> set cs \<and> strip c \<noteq> []}"
  using distinct_card [OF distinct_normalize_companies, of cs]
  by (simp add: set_normalize_companies)

lemma length_normalize_companies_le: "length (normalize_companies cs) \<le> length cs"
proof -
  have "length (normalize_companies cs) \<le> length (map strip (filter (\<lambda>c. strip c \<noteq> []) cs))"
    unfolding normalize_companies_def by (rule length_dict_fromkeys_le)
  also have "\<dots> \<le> length cs" by simp
  finally show ?thesis .
qed


section \<open>Batch submission: normalization and the size ceiling\<close>

lemma strip_plain [simp]: "strip ''a'' = ''a''" "strip ''b'' = ''b''" "strip '' a '' = ''a''" "strip ''  '' = []"
  by (simp_all add: strip_def lstrip_def rstrip_def py_isspace_def)

text \<open>
  Claim C10. The size ceiling is tested on the list as submitted: a request of more than
  500 entries is refused whatever normalization would leave of it. A job that is created
  holds the names stripped, without the empty ones and without duplicates, each at the
  place of its first occurrence; \<open>total_items\<close> is the number of distinct stripped
  non-empty names, which is at most the number of names submitted.
\<close>

theorem create_job_normalizes_after_size_check:
  "(length (req_companies req) > 500 \<longrightarrow>
      create_job cfg now new_id task_id org d req = Inl (HTTPException 400 ''Max 500 companies per job''))
   \<and> (create_job cfg now new_id task_id org d req = Inr (d', j) \<longrightarrow>
        companies j = dict_fromkeys (map strip (filter (\<lambda>c. strip c \<noteq> []) (req_companies req)))
      \<and> companies j = rev (remdups (rev (filter (\<lambda>c. c \<noteq> []) (map strip (req_companies req)))))
      \<and> distinct (companies j)
      \<and> set (companies j) = {strip c | c. c \<in> set (req_companies req) \<and> strip c \<noteq> []}
      \<and> total_items j = int (card {strip c | c. c \<in> set (req_companies req) \<and> strip c \<noteq> []})
      \<and> total_items j = int (length (companies j))
      \<and> total_items j \<le> int (length (req_companies req))
      \<and> length (req_companies req) \<le> 500)"
proof (intro conjI impI)
  assume "length (req_companies req) > 500"
  then show "create_job cfg now new_id task_id org d req = Inl (HTTPException 400 ''Max 500 companies per job'')"
    by (auto simp: create_job_def)
next
  assume ok: "create_job cfg now new_id task_id org d req = Inr (d', j)"
  then have cs: "companies j = normalize_companies (req_companies req)"
    and tot: "total_items j = int (length (normalize_companies (req_companies req)))"
    and len: "length (req_companies req) \<le> 500"
    by (auto simp: create_job_def Let_def split: if_splits)
  have fm: "map strip (filter (\<lambda>c. strip c \<noteq> []) (req_companies req))
            = filter (\<lambda>c. c \<noteq> []) (map strip (req_companies req))"
    by (induction "req_companies req") (auto simp: filter_map comp_def)
  show "companies j = dict_fromkeys (map strip (filter (\<lambda>c. strip c \<noteq> []) (req_companies req)))"
    using cs by (simp add: normalize_companies_def)
  show "companies j = rev (remdups (rev (filter (\<lambda>c. c \<noteq> []) (map strip (req_companies req)))))"
    using cs by (simp add: normalize_companies_def dict_fromkeys_first_occurrence filter_map comp_def)
  show "distinct (companies j)"
    using cs by (simp add: distinct_normalize_companies)
  show "set (companies j) = {strip c | c. c \<in> set (req_companies req) \<and> strip c \<noteq> []}"
    using cs by (simp add: set_normalize_companies)
  show "total_items j = int (card {strip c | c. c \<in> set (req_companies req) \<and> strip c \<noteq> []})"
    using tot by (simp add: length_normalize_companies)
  show "total_items j = int (length (companies j))"
    using tot cs by simp
  show "total_items j \<le> int (length (req_companies req))"
    using tot length_normalize_companies_le [of "req_companies req"] by simp
  show "length (req_companies req) \<le> 500"
    by (rule len)
qed

theorem create_job_normalizes_witness:
  "create_job default_settings 0 1 ''t1'' 7 \<lparr>jobs = [], results = [], usage_logs = []\<rparr>
     \<lparr>req_companies = replicate 501 ''a'', req_websites = Map.empty\<rparr>
     = Inl (HTTPException 400 ''Max 500 companies per job'')
   \<and> length (normalize_companies (replicate 501 ''a'')) = 1
   \<and> (\<exists>d' j. create_job default_settings 0 1 ''t1'' 7 \<lparr>jobs = [], results = [], usage_logs = []\<rparr>
               \<lparr>req_companies = ['' a '', ''b'', ''a'', ''  ''], req_websites = Map.empty\<rparr> = Inr (d', j)
             \<and> companies j = [''a'', ''b''] \<and> total_items j = 2)"
proof -
  let ?d = "\<lparr>jobs = [], results = [], usage_logs = []\<rparr>"
  let ?big = "\<lparr>req_companies = replicate 501 ''a'', req_websites = Map.empty\<rparr>"
  let ?small = "\<lparr>req_companies = ['' a '', ''b'', ''a'', ''  ''], req_websites = Map.empty\<rparr>"
  have big: "create_job default_settings 0 1 ''t1'' 7 ?d ?big = Inl (HTTPException 400 ''Max 500 companies per job'')"
    using create_job_normalizes_after_size_check [of ?big default_settings 0 1 "''t1''" 7 ?d] by simp
  have "{strip c | c. c \<in> set (replicate 501 ''a'') \<and> strip c \<noteq> []} = {''a''}"
    by auto
  then have one: "length (normalize_companies (replicate 501 ''a'')) = 1"
    by (simp add: length_normalize_companies)
  obtain d' j where run: "create_job default_settings 0 1 ''t1'' 7 ?d ?small = Inr (d', j)"
    by (simp add: create_job_def default_settings_def active_jobs_def Let_def)
  have "companies j = dict_fromkeys (map strip (filter (\<lambda>c. strip c \<noteq> []) (req_companies ?small)))"
    and "total_items j = int (length (companies j))"
    using create_job_normalizes_after_size_check [of ?small default_settings 0 1 "''t1''" 7 ?d d' j] run
    by blast+
  then have "companies j = [''a'', ''b'']" and "total_items j = 2"
    by (simp_all add: dict_fromkeys_def)
  with big one run show ?thesis by blast
qed


section \<open>Output extraction: order of the candidates and the repair\<close>








section \<open>Tool executor: failures become text\<close>

lemma tool_map_None_iff:
  "tool_map nw tool_name = None \<longleftrightarrow>
     tool_name \<notin> {''search_web'', ''scrape_website'', ''find_company_website'', ''get_linkedin_info''}"
  by (simp add: tool_map_def)

lemma py_getitem_missing:
  "map_of kvs k = None \<Longrightarrow> py_getitem (JObj kvs) k = Inl (Raise KeyError (quoted k))"
  by simp

lemma py_getitem_not_dict:
  "(\<forall>kvs. v \<noteq> JObj kvs) \<Longrightarrow> \<exists>m. py_getitem v k = Inl (Raise TypeError m)"
  by (cases v) auto

text \<open>
  Claim C5. For every tool name and every input, \<open>execute_tool\<close> returns a text and no
  exception leaves it. A name outside the table gives the text \<open>Unknown tool: name\<close>.
  An exception of the handler gives the text \<open>Tool error (name): message\<close>; so does a
  missing required argument, whose \<open>KeyError\<close> prints the key in quotes, and an input
  that is no dict.
\<close>

theorem execute_tool_never_raises:
  "(\<exists>s. execute_tool nw tool_name tool_input = Inr s)
   \<and> (tool_name \<notin> {''search_web'', ''scrape_website'', ''find_company_website'', ''get_linkedin_info''}
        \<longrightarrow> execute_tool nw tool_name tool_input = Inr (''Unknown tool: '' @ tool_name))
   \<and> (\<forall>handler e. tool_map nw tool_name = Some handler \<and> handler tool_input = Inl e
        \<longrightarrow> execute_tool nw tool_name tool_input
              = Inr (''Tool error ('' @ tool_name @ ''): '' @ exc_str e))
   \<and> (\<forall>handler s. tool_map nw tool_name = Some handler \<and> handler tool_input = Inr s
        \<longrightarrow> execute_tool nw tool_name tool_input = Inr s)
   \<and> (\<forall>kvs. map_of kvs ''query'' = None
        \<longrightarrow> execute_tool nw ''search_web'' (JObj kvs)
              = Inr (''Tool error (search_web): '' @ quoted ''query''))
   \<and> (\<forall>kvs. map_of kvs ''url'' = None
        \<longrightarrow> execute_tool nw ''scrape_website'' (JObj kvs)
              = Inr (''Tool error (scrape_website): '' @ quoted ''url''))
   \<and> (\<forall>kvs. map_of kvs ''company_name'' = None
        \<longrightarrow> execute_tool nw ''find_company_website'' (JObj kvs)
              = Inr (''Tool error (find_company_website): '' @ quoted ''company_name'')
          \<and> execute_tool nw ''get_linkedin_info'' (JObj kvs)
              = Inr (''Tool error (get_linkedin_info): '' @ quoted ''company_name''))"
proof (intro conjI allI impI)
  show "\<exists>s. execute_tool nw tool_name tool_input = Inr s"
    by (simp add: execute_tool_def split: option.splits sum.splits)
next
  assume "tool_name \<notin> {''search_web'', ''scrape_website'', ''find_company_website'', ''get_linkedin_info''}"
  then have "tool_map nw tool_name = None"
    by (simp add: tool_map_None_iff)
  then show "execute_tool nw tool_name tool_input = Inr (''Unknown tool: '' @ tool_name)"
    by (simp add: execute_tool_def)
next
  fix handler e
  assume "tool_map nw tool_name = Some handler \<and> handler tool_input = Inl e"
  then show "execute_tool nw tool_name tool_input = Inr (''Tool error ('' @ tool_name @ ''): '' @ exc_str e)"
    by (simp add: execute_tool_def)
next
  fix handler s
  assume "tool_map nw tool_name = Some handler \<and> handler tool_input = Inr s"
  then show "execute_tool nw tool_name tool_input = Inr s"
    by (simp add: execute_tool_def)
next
  fix kvs :: "(string \<times> json) list"
  assume "map_of kvs ''query'' = None"
  then show "execute_tool nw ''search_web'' (JObj kvs) = Inr (''Tool error (search_web): '' @ quoted ''query'')"
    by (simp add: execute_tool_def tool_map_def)
next
  fix kvs :: "(string \<times> json) list"
  assume "map_of kvs ''url'' = None"
  then show "execute_tool nw ''scrape_website'' (JObj kvs) = Inr (''Tool error (scrape_website): '' @ quoted ''url'')"
    by (simp add: execute_tool_def tool_map_def)
next
  fix kvs :: "(string \<times> json) list"
  assume "map_of kvs ''company_name'' = None"
  then show "execute_tool nw ''find_company_website'' (JObj kvs)
             = Inr (''Tool error (find_company_website): '' @ quoted ''company_name'')"
    by (simp add: execute_tool_def tool_map_def)
next
  fix kvs :: "(string \<times> json) list"
  assume "map_of kvs ''company_name'' = None"
  then show "execute_tool nw ''get_linkedin_info'' (JObj kvs)
             = Inr (''Tool error (get_linkedin_info): '' @ quoted ''company_name'')"
    by (simp add: execute_tool_def tool_map_def)
qed

theorem execute_tool_never_raises_witness:
  "execute_tool sample_net ''lookup_dns'' (JObj []) = Inr ''Unknown tool: lookup_dns''
   \<and> execute_tool sample_net ''search_web'' (JObj [(''q'', JStr ''acme'')])
       = Inr (''Tool error (search_web): '' @ quoted ''query'')
   \<and> execute_tool sample_net ''scrape_website'' (JObj [(''url'', JInt 7)])
       = Inr (''Tool error (scrape_website): '' @ quoted ''int'' @ '' object has no attribute '' @ quoted ''startswith'')
   \<and> execute_tool sample_net ''search_web'' (JObj [(''query'', JStr ''acme'')]) = Inr ''Search error: timed out''"
proof -
  have a: "execute_tool sample_net ''lookup_dns'' (JObj []) = Inr ''Unknown tool: lookup_dns''"
    using execute_tool_never_raises [of sample_net "''lookup_dns''" "JObj []"] by simp
  have b: "execute_tool sample_net ''search_web'' (JObj [(''q'', JStr ''acme'')])
           = Inr (''Tool error (search_web): '' @ quoted ''query'')"
    using execute_tool_never_raises [of sample_net "''search_web''" "JObj []"] by simp
  have c: "execute_tool sample_net ''scrape_website'' (JObj [(''url'', JInt 7)])
           = Inr (''Tool error (scrape_website): '' @ quoted ''int'' @ '' object has no attribute '' @ quoted ''startswith'')"
    by (simp add: execute_tool_def tool_map_def scrape_website_def)
  have d: "execute_tool sample_net ''search_web'' (JObj [(''query'', JStr ''acme'')]) = Inr ''Search error: timed out''"
    by (simp add: execute_tool_def tool_map_def search_web_def sample_net_def)
  from a b c d show ?thesis by blast
qed


section \<open>Model calls with retries: the policy by class of error\<close>

lemma call_attempts_step:
  "call_attempts ag out attempt =
     (if attempt < max_retries ag then
        (case out attempt of
           Returns r \<Rightarrow> (Some r, Suc attempt, [])
         | Raises e \<Rightarrow>
            (case e of
               APITimeoutError \<Rightarrow> then_sleep (base_delay ag * 2 ^ attempt) (call_attempts ag out (Suc attempt))
             | RateLimitError \<Rightarrow> then_sleep (base_delay ag * 2 ^ attempt) (call_attempts ag out (Suc attempt))
             | APIError \<Rightarrow>
                 (if Suc attempt < max_retries ag
                  then then_sleep (base_delay ag) (call_attempts ag out (Suc attempt))
                  else (None, Suc attempt, []))
             | UnexpectedError \<Rightarrow> (None, Suc attempt, [])))
      else (None, attempt, []))"
  by (subst call_attempts.simps) (auto split: api_outcome.splits groq_error.splits)

lemma call_groq_unfold:
  assumes "max_retries ag = 3"
  shows "call_groq_with_retry ag out =
     (case out 0 of
        Returns r \<Rightarrow> (Some r, 1, [])
      | Raises e0 \<Rightarrow>
          if e0 = UnexpectedError then (None, 1, [])
          else then_sleep (if e0 = APIError then base_delay ag else base_delay ag * 2 ^ 0)
            (case out 1 of
               Returns r \<Rightarrow> (Some r, 2, [])
             | Raises e1 \<Rightarrow>
                 if e1 = UnexpectedError then (None, 2, [])
                 else then_sleep (if e1 = APIError then base_delay ag else base_delay ag * 2 ^ 1)
                   (case out 2 of
                      Returns r \<Rightarrow> (Some r, 3, [])
                    | Raises e2 \<Rightarrow>
                        if e2 = UnexpectedError \<or> e2 = APIError then (None, 3, [])
                        else then_sleep (base_delay ag * 2 ^ 2) (None, 3, []))))"
proof -
  have s3: "call_attempts ag out 3 = (None, 3, [])"
    using assms by (subst call_attempts_step) simp
  have s2: "call_attempts ag out 2 =
      (case out 2 of
         Returns r \<Rightarrow> (Some r, 3, [])
       | Raises e2 \<Rightarrow>
           if e2 = UnexpectedError \<or> e2 = APIError then (None, 3, [])
           else then_sleep (base_delay ag * 2 ^ 2) (None, 3, []))"
    using assms s3 by (subst call_attempts_step) (simp add: eval_nat_numeral split: api_outcome.splits groq_error.splits)
  have s1: "call_attempts ag out 1 =
      (case out 1 of
         Returns r \<Rightarrow> (Some r, 2, [])
       | Raises e1 \<Rightarrow>
           if e1 = UnexpectedError then (None, 2, [])
           else then_sleep (if e1 = APIError then base_delay ag else base_delay ag * 2 ^ 1)
                  (call_attempts ag out 2))"
    using assms by (subst call_attempts_step) (simp add: eval_nat_numeral split: api_outcome.splits groq_error.splits)
  have s0: "call_attempts ag out 0 =
      (case out 0 of
         Returns r \<Rightarrow> (Some r, 1, [])
       | Raises e0 \<Rightarrow>
           if e0 = UnexpectedError then (None, 1, [])
           else then_sleep (if e0 = APIError then base_delay ag else base_delay ag * 2 ^ 0)
                  (call_attempts ag out 1))"
    using assms by (subst call_attempts_step) (simp add: eval_nat_numeral split: api_outcome.splits groq_error.splits)
  show ?thesis
    unfolding call_groq_with_retry_def s0 s1 s2 ..
qed

lemma ex_less_3: "(\<exists>k<3. P k) = (P (0::nat) \<or> P 1 \<or> P 2)"
proof -
  have "\<And>k::nat. k < 3 \<longleftrightarrow> k = 0 \<or> k = 1 \<or> k = 2" by auto
  then show ?thesis by auto
qed

lemma all_less_1: "(\<forall>i<(1::nat). P i) = P 0"
  by auto

lemma all_less_2: "(\<forall>i<(2::nat). P i) = (P 0 \<and> P 1)"
proof -
  have "\<And>k::nat. k < 2 \<longleftrightarrow> k = 0 \<or> k = 1" by auto
  then show ?thesis by auto
qed

lemma EnrichmentAgent_fields:
  "EnrichmentAgent cfg = Inr ag \<Longrightarrow>
     max_retries ag = 3 \<and> base_delay ag = 2 \<and> max_iterations ag = GROQ_MAX_TOOL_ITERATIONS cfg"
  by (auto simp: EnrichmentAgent_def split: if_splits)

lemma call_groq_requests_le: "max_retries ag = 3 \<Longrightarrow> fst (snd (call_groq_with_retry ag out)) \<le> 3"
  by (simp add: call_groq_unfold then_sleep_def split: api_outcome.splits)

lemma call_groq_Some:
  "max_retries ag = 3 \<Longrightarrow> fst (call_groq_with_retry ag out) = Some r \<Longrightarrow>
   \<exists>k<3. out k = Returns r \<and> fst (snd (call_groq_with_retry ag out)) = Suc k
      \<and> (\<forall>i<k. \<exists>e. out i = Raises e \<and> e \<noteq> UnexpectedError)"
  by (auto simp: call_groq_unfold then_sleep_def ex_less_3 all_less_1 all_less_2 split: api_outcome.splits if_splits)

lemma call_groq_unexpected:
  assumes "max_retries ag = 3" "k < 3" "out k = Raises UnexpectedError"
    "\<forall>i<k. \<exists>e. out i = Raises e \<and> e \<noteq> UnexpectedError"
  shows "fst (call_groq_with_retry ag out) = None \<and> fst (snd (call_groq_with_retry ag out)) = Suc k"
proof -
  from assms(2) consider "k = 0" | "k = 1" | "k = 2" by linarith
  then show ?thesis
  proof cases
    case 1
    with assms show ?thesis by (simp add: call_groq_unfold)
  next
    case 2
    with assms show ?thesis by (auto simp: call_groq_unfold then_sleep_def all_less_1)
  next
    case 3
    with assms show ?thesis by (auto simp: call_groq_unfold then_sleep_def all_less_2)
  qed
qed

lemma call_groq_transient:
  assumes "max_retries ag = 3" "\<forall>k<3. out k = Raises APITimeoutError \<or> out k = Raises RateLimitError"
  shows "call_groq_with_retry ag out
         = (None, 3, [base_delay ag * 2 ^ 0, base_delay ag * 2 ^ 1, base_delay ag * 2 ^ 2])"
proof -
  from assms(2) have "out 0 = Raises APITimeoutError \<or> out 0 = Raises RateLimitError"
    "out 1 = Raises APITimeoutError \<or> out 1 = Raises RateLimitError"
    "out 2 = Raises APITimeoutError \<or> out 2 = Raises RateLimitError"
    by simp_all
  with assms(1) show ?thesis
    by (auto simp: call_groq_unfold then_sleep_def)
qed

lemma call_groq_provider_errors:
  assumes "max_retries ag = 3" "\<forall>k<3. out k = Raises APIError"
  shows "call_groq_with_retry ag out = (None, 3, [base_delay ag, base_delay ag])"
proof -
  from assms(2) have "out 0 = Raises APIError" "out 1 = Raises APIError" "out 2 = Raises APIError"
    by simp_all
  with assms(1) show ?thesis
    by (simp add: call_groq_unfold then_sleep_def)
qed

text \<open>
  Claim C8, as amended. For an agent as its constructor makes it and every sequence of
  outcomes of the provider: the wrapper sends at most 3 requests; it returns a response
  exactly when some attempt among the three returns one and every earlier attempt raised
  an error of the provider's client; an unexpected error ends the call at once with no
  response; three timeouts or rate limits give no response after sleeps of 2, 4 and 8
  seconds; an error of the provider that is neither is retried after the base delay as
  long as an attempt is left, so three of them give no response after two retries.
\<close>

theorem call_groq_with_retry_policy:
  "EnrichmentAgent cfg = Inr ag \<longrightarrow>
     fst (snd (call_groq_with_retry ag out)) \<le> 3
   \<and> (\<forall>r. fst (call_groq_with_retry ag out) = Some r \<longleftrightarrow>
          (\<exists>k<3. out k = Returns r \<and> (\<forall>i<k. \<exists>e. out i = Raises e \<and> e \<noteq> UnexpectedError)))
   \<and> (\<forall>k<3. out k = Raises UnexpectedError \<and> (\<forall>i<k. \<exists>e. out i = Raises e \<and> e \<noteq> UnexpectedError)
          \<longrightarrow> fst (call_groq_with_retry ag out) = None \<and> fst (snd (call_groq_with_retry ag out)) = Suc k)
   \<and> ((\<forall>k<3. out k = Raises APITimeoutError \<or> out k = Raises RateLimitError)
          \<longrightarrow> call_groq_with_retry ag out = (None, 3, [2, 4, 8]))
   \<and> ((\<forall>k<3. out k = Raises APIError)
          \<longrightarrow> call_groq_with_retry ag out = (None, 3, [2, 2]))"
proof
  assume "EnrichmentAgent cfg = Inr ag"
  then have m: "max_retries ag = 3" and b: "base_delay ag = 2"
    using EnrichmentAgent_fields by blast+
  have c1: "fst (snd (call_groq_with_retry ag out)) \<le> 3"
    using m by (rule call_groq_requests_le)
  have c2: "\<forall>r. fst (call_groq_with_retry ag out) = Some r \<longleftrightarrow>
          (\<exists>k<3. out k = Returns r \<and> (\<forall>i<k. \<exists>e. out i = Raises e \<and> e \<noteq> UnexpectedError))"
  proof (intro allI iffI)
    fix r
    assume "fst (call_groq_with_retry ag out) = Some r"
    then show "\<exists>k<3. out k = Returns r \<and> (\<forall>i<k. \<exists>e. out i = Raises e \<and> e \<noteq> UnexpectedError)"
      using call_groq_Some [OF m] by blast
  next
    fix r
    assume "\<exists>k<3. out k = Returns r \<and> (\<forall>i<k. \<exists>e. out i = Raises e \<and> e \<noteq> UnexpectedError)"
    then show "fst (call_groq_with_retry ag out) = Some r"
      using m by (auto simp: call_groq_unfold then_sleep_def ex_less_3 all_less_1 all_less_2)
  qed
  have c3: "\<forall>k<3. out k = Raises UnexpectedError \<and> (\<forall>i<k. \<exists>e. out i = Raises e \<and> e \<noteq> UnexpectedError)
          \<longrightarrow> fst (call_groq_with_retry ag out) = None \<and> fst (snd (call_groq_with_retry ag out)) = Suc k"
    using call_groq_unexpected [OF m] by blast
  have c4: "(\<forall>k<3. out k = Raises APITimeoutError \<or> out k = Raises RateLimitError)
          \<longrightarrow> call_groq_with_retry ag out = (None, 3, [2, 4, 8])"
    using call_groq_transient [OF m, of out] b by simp
  have c5: "(\<forall>k<3. out k = Raises APIError) \<longrightarrow> call_groq_with_retry ag out = (None, 3, [2, 2])"
    using call_groq_provider_errors [OF m, of out] b by simp
  from c1 c2 c3 c4 c5
  show "fst (snd (call_groq_with_retry ag out)) \<le> 3
   \<and> (\<forall>r. fst (call_groq_with_retry ag out) = Some r \<longleftrightarrow>
          (\<exists>k<3. out k = Returns r \<and> (\<forall>i<k. \<exists>e. out i = Raises e \<and> e \<noteq> UnexpectedError)))
   \<and> (\<forall>k<3. out k = Raises UnexpectedError \<and> (\<forall>i<k. \<exists>e. out i = Raises e \<and> e \<noteq> UnexpectedError)
          \<longrightarrow> fst (call_groq_with_retry ag out) = None \<and> fst (snd (call_groq_with_retry ag out)) = Suc k)
   \<and> ((\<forall>k<3. out k = Raises APITimeoutError \<or> out k = Raises RateLimitError)
          \<longrightarrow> call_groq_with_retry ag out = (None, 3, [2, 4, 8]))
   \<and> ((\<forall>k<3. out k = Raises APIError)
          \<longrightarrow> call_groq_with_retry ag out = (None, 3, [2, 2]))"
    by blast
qed

lemma EnrichmentAgent_sample: "EnrichmentAgent sample_settings = Inr sample_agent"
  by (simp add: EnrichmentAgent_def sample_settings_def default_settings_def sample_agent_def)

theorem call_groq_with_retry_policy_witness:
  "EnrichmentAgent sample_settings = Inr sample_agent
   \<and> call_groq_with_retry sample_agent (\<lambda>k. Raises APIError) = (None, 3, [2, 2])
   \<and> call_groq_with_retry sample_agent (\<lambda>k. Raises RateLimitError) = (None, 3, [2, 4, 8])
   \<and> fst (call_groq_with_retry sample_agent (\<lambda>k. Raises UnexpectedError)) = None
   \<and> fst (snd (call_groq_with_retry sample_agent (\<lambda>k. Raises UnexpectedError))) = 1"
proof -
  note ag = EnrichmentAgent_sample
  have a: "call_groq_with_retry sample_agent (\<lambda>k. Raises APIError) = (None, 3, [2, 2])"
    using call_groq_with_retry_policy [of sample_settings sample_agent "\<lambda>k. Raises APIError"] ag by simp
  have b: "call_groq_with_retry sample_agent (\<lambda>k. Raises RateLimitError) = (None, 3, [2, 4, 8])"
    using call_groq_with_retry_policy [of sample_settings sample_agent "\<lambda>k. Raises RateLimitError"] ag by simp
  have c: "fst (call_groq_with_retry sample_agent (\<lambda>k. Raises UnexpectedError)) = None
           \<and> fst (snd (call_groq_with_retry sample_agent (\<lambda>k. Raises UnexpectedError))) = Suc 0"
    using call_groq_with_retry_policy [of sample_settings sample_agent "\<lambda>k. Raises UnexpectedError"] ag
    by (metis zero_less_numeral not_less_zero)
  from ag a b c show ?thesis by simp
qed

text \<open>
  The claim as stated fails: after an error of the provider at the first and at the
  second attempt the wrapper sends a third request, and returns its response.
\<close>

theorem call_groq_retries_provider_error_twice_counterexample:
  "call_groq_with_retry sample_agent (\<lambda>k. if k < 2 then Raises APIError else Returns stop_response)
     = (Some stop_response, 3, [2, 2])"
  by (simp add: call_groq_unfold then_sleep_def sample_agent_def)


section \<open>The tool-calling loop: bound and final text\<close>




lemma execute_tool_no_exception [simp]: "execute_tool nw tool_name tool_input \<noteq> Inl e"
  by (simp add: execute_tool_def split: option.splits sum.splits)

















section \<open>The sample batch\<close>

lemma create_job_sample:
  "create_job sample_settings 0 1 ''task-1'' 7 empty_db sample_request = Inr (queued_db, queued_job)"
  by (simp add: create_job_def sample_settings_def default_settings_def empty_db_def sample_request_def
      active_jobs_def queued_db_def queued_job_def normalize_companies_def dict_fromkeys_def Let_def
      strip_def lstrip_def rstrip_def py_isspace_def)

section \<open>The orchestrator loop: what one item and one run change\<close>

lemma update_jobs_tables [simp]:
  "results (update_jobs c u d) = results d"
  "usage_logs (update_jobs c u d) = usage_logs d"
  "jobs (update_jobs c u d) = map (\<lambda>j. if c j then u j else j) (jobs d)"
  by (simp_all add: update_jobs_def)

lemma find_map_same_id:
  assumes "\<And>j. job_id (f j) = job_id j"
  shows "List.find (\<lambda>j. job_id j = jid) (map f js) = map_option f (List.find (\<lambda>j. job_id j = jid) js)"
  using assms by (induction js) auto

lemma db_get_job_update_jobs:
  assumes "\<And>j. job_id (u j) = job_id j"
  shows "db_get_job (update_jobs c u d) jid = map_option (\<lambda>j. if c j then u j else j) (db_get_job d jid)"
proof -
  have "\<And>j. job_id (if c j then u j else j) = job_id j" using assms by simp
  then show ?thesis
    unfolding db_get_job_def update_jobs_tables by (rule find_map_same_id)
qed

lemma db_get_job_tables:
  "jobs d' = jobs d \<Longrightarrow> db_get_job d' jid = db_get_job d jid"
  by (simp add: db_get_job_def)

lemma db_get_job_id: "db_get_job d jid = Some j \<Longrightarrow> job_id j = jid \<and> j \<in> set (jobs d)"
  by (auto simp: db_get_job_def find_Some_iff)

lemma db_add_result_Inr:
  "db_add_result d r = Inr d' \<Longrightarrow>
     jobs d' = jobs d \<and> results d' = results d @ [r] \<and> usage_logs d' = usage_logs d
     \<and> (r_job_id r \<noteq> None \<longrightarrow>
          (\<forall>x \<in> set (results d). \<not> (r_job_id x = r_job_id r \<and> input_name x = input_name r)))"
  by (auto simp: db_add_result_def split: if_splits)

lemma save_result_Inr:
  "save_result accepts d jid org c raw tokens n = Inr (d', r) \<Longrightarrow>
     jobs d' = jobs d \<and> results d' = results d @ [r] \<and> usage_logs d' = usage_logs d
     \<and> r_job_id r = jid \<and> input_name r = c
     \<and> (jid \<noteq> None \<longrightarrow> (\<forall>x \<in> set (results d). \<not> (r_job_id x = jid \<and> input_name x = c)))"
  by (auto simp: save_result_def Let_def split: sum.splits dest!: db_add_result_Inr)

lemma enrich_company_Inr:
  "enrich_company ag accepts nw provider d jid org c hint = Inr (d', r) \<Longrightarrow>
     jobs d' = jobs d \<and> results d' = results d @ [r]
     \<and> (\<exists>u. usage_logs d' = usage_logs d @ [u] \<and> u_job_id u = jid \<and> u_company u = c
            \<and> credits_consumed u = 1 \<and> u_source u = ''agent'')
     \<and> r_job_id r = jid \<and> input_name r = c
     \<and> (jid \<noteq> None \<longrightarrow> (\<forall>x \<in> set (results d). \<not> (r_job_id x = jid \<and> input_name x = c)))"
  by (auto simp: enrich_company_def Let_def split: sum.splits dest!: save_result_Inr)


lemma increment_completed_Inr:
  "increment_completed jid d = Inr d' \<Longrightarrow>
     d' = update_jobs (\<lambda>j. job_id j = jid) completed_update d
     \<and> (\<forall>j \<in> set (jobs d). job_id j = jid \<longrightarrow> total_items j \<noteq> 0)"
  by (auto simp: increment_completed_def split: if_splits)

lemma increment_failed_Inr:
  "increment_failed jid d = Inr d' \<Longrightarrow>
     d' = update_jobs (\<lambda>j. job_id j = jid) failed_update d
     \<and> (\<forall>j \<in> set (jobs d). job_id j = jid \<longrightarrow> total_items j \<noteq> 0)"
  by (auto simp: increment_failed_def split: if_splits)

lemma item_failed_cases:
  "item_failed jid org c e d = (d', err) \<Longrightarrow>
     (err = None \<and> jobs d' = map (\<lambda>j. if job_id j = jid then failed_update j else j) (jobs d)
        \<and> (\<exists>r. results d' = results d @ [r] \<and> r_job_id r = Some jid \<and> input_name r = c \<and> r_status r = ''failed'')
        \<and> usage_logs d' = usage_logs d \<and> key_free d jid c
        \<and> (\<forall>j \<in> set (jobs d). job_id j = jid \<longrightarrow> total_items j \<noteq> 0))
     \<or> (err \<noteq> None \<and> d' = d)"
  by (auto simp: item_failed_def key_free_def split: sum.splits dest!: db_add_result_Inr increment_failed_Inr)

lemma item_failed_key_taken:
  "\<not> key_free d jid c \<Longrightarrow> \<exists>e'. item_failed jid org c e d = (d, Some e')"
  by (auto simp: item_failed_def key_free_def db_add_result_def)

lemma try_item_cases:
  "try_item ag accepts nw provider jid org sites i c d = (committed, d', err) \<Longrightarrow>
     (err = None \<and> jobs d' = map (\<lambda>j. if job_id j = jid then completed_update j else j) (jobs d)
        \<and> (\<exists>r. results d' = results d @ [r] \<and> r_job_id r = Some jid \<and> input_name r = c)
        \<and> (\<exists>u1 u2. usage_logs d' = usage_logs d @ [u1, u2] \<and> u_company u1 = c \<and> u_company u2 = c
               \<and> u_source u1 = ''agent'' \<and> u_source u2 = ''batch_job'')
        \<and> key_free d jid c
        \<and> (\<forall>j \<in> set (jobs d). job_id j = jid \<longrightarrow> total_items j \<noteq> 0)
        \<and> jobs committed = jobs d
        \<and> (\<exists>r. results committed = results d @ [r] \<and> r_job_id r = Some jid \<and> input_name r = c)
        \<and> (\<exists>u. usage_logs committed = usage_logs d @ [u]))
   \<or> (err = None \<and> jobs d' = map (\<lambda>j. if job_id j = jid then failed_update j else j) (jobs d)
        \<and> (\<exists>r. results d' = results d @ [r] \<and> r_job_id r = Some jid \<and> input_name r = c \<and> r_status r = ''failed'')
        \<and> usage_logs d' = usage_logs d \<and> key_free d jid c
        \<and> (\<forall>j \<in> set (jobs d). job_id j = jid \<longrightarrow> total_items j \<noteq> 0)
        \<and> committed = d)
   \<or> (err \<noteq> None \<and> d' = d \<and> committed = d)
   \<or> (err \<noteq> None \<and> d' = committed \<and> jobs d' = jobs d
        \<and> (\<exists>r. results d' = results d @ [r] \<and> r_job_id r = Some jid \<and> input_name r = c)
        \<and> (\<exists>u. usage_logs d' = usage_logs d @ [u])
        \<and> key_free d jid c)"
proof (cases "enrich_company ag accepts nw (provider i) d (Some jid) org c (py_or (sites c) (sites (str_nat i)))")
  case (Inl e)
  assume t: "try_item ag accepts nw provider jid org sites i c d = (committed, d', err)"
  with Inl have "committed = d" and f: "item_failed jid org c e d = (d', err)"
    by (auto simp: try_item_def Let_def)
  with item_failed_cases [OF f] show ?thesis by auto
next
  case (Inr p)
  assume t: "try_item ag accepts nw provider jid org sites i c d = (committed, d', err)"
  obtain d1 r where p: "p = (d1, r)" by (cases p)
  from enrich_company_Inr [OF Inr [unfolded p]]
  have e: "jobs d1 = jobs d" "results d1 = results d @ [r]"
    "\<exists>u. usage_logs d1 = usage_logs d @ [u] \<and> u_job_id u = Some jid \<and> u_company u = c
            \<and> credits_consumed u = 1 \<and> u_source u = ''agent''"
    "r_job_id r = Some jid" "input_name r = c" "key_free d jid c"
    by (auto simp: key_free_def)
  let ?d2 = "d1\<lparr>usage_logs := usage_logs d1 @
                           [\<lparr> u_organization_id = org, u_job_id = Some jid, action = ''enrichment'',
                              credits_consumed = 1, u_tokens_used = 0,
                              u_company = c, u_source = ''batch_job'' \<rparr>]\<rparr>"
  from t Inr p have c1: "committed = d1"
    and rest: "(case increment_completed jid ?d2 of
                  Inl e \<Rightarrow> item_failed jid org c e d1 | Inr d3 \<Rightarrow> (d3, None)) = (d', err)"
    by (auto simp: try_item_def Let_def)
  show ?thesis
  proof (cases "increment_completed jid ?d2")
    case (Inl e2)
    have "\<not> key_free d1 jid c" using e by (auto simp: key_free_def)
    then obtain e' where "item_failed jid org c e2 d1 = (d1, Some e')"
      using item_failed_key_taken by blast
    with rest Inl have "d' = d1" "err = Some e'" by simp_all
    with c1 e show ?thesis by auto
  next
    case (Inr d3)
    with rest have d3: "d' = d3" "err = None" by simp_all
    from increment_completed_Inr [OF Inr] e d3 c1
    show ?thesis by auto
  qed
qed


lemma process_company_cases:
  "process_company cfg ag accepts nw provider jid org sites i c d = (d', err) \<Longrightarrow>
     (err = None \<and> jobs d' = map (\<lambda>j. if job_id j = jid then completed_update j else j) (jobs d)
        \<and> (\<exists>r. results d' = results d @ [r] \<and> r_job_id r = Some jid \<and> input_name r = c)
        \<and> (\<exists>u1 u2. usage_logs d' = usage_logs d @ [u1, u2] \<and> u_company u1 = c \<and> u_company u2 = c
               \<and> u_source u1 = ''agent'' \<and> u_source u2 = ''batch_job'')
        \<and> key_free d jid c)
   \<or> (err = None \<and> jobs d' = map (\<lambda>j. if job_id j = jid then failed_update j else j) (jobs d)
        \<and> (\<exists>r. results d' = results d @ [r] \<and> r_job_id r = Some jid \<and> input_name r = c \<and> r_status r = ''failed'')
        \<and> usage_logs d' = usage_logs d \<and> key_free d jid c)
   \<or> (err \<noteq> None \<and> d' = d)
   \<or> (err \<noteq> None \<and> jobs d' = jobs d
        \<and> (\<exists>r. results d' = results d @ [r] \<and> r_job_id r = Some jid \<and> input_name r = c)
        \<and> (\<exists>u. usage_logs d' = usage_logs d @ [u])
        \<and> key_free d jid c)"
proof -
  assume p: "process_company cfg ag accepts nw provider jid org sites i c d = (d', err)"
  obtain committed d2 err2 where t: "try_item ag accepts nw provider jid org sites i c d = (committed, d2, err2)"
    by (cases "try_item ag accepts nw provider jid org sites i c d") auto
  note cases = try_item_cases [OF t]
  show ?thesis
  proof (cases err2)
    case (Some e)
    with p t have "d' = d2" "err = Some e" by (simp_all add: process_company_def)
    with cases Some show ?thesis by auto
  next
    case None
    show ?thesis
    proof (cases "WORKER_COMMIT_BATCH_SIZE cfg = 0")
      case True
      with p t None have "d' = committed" "err \<noteq> None" by (auto simp: process_company_def)
      with cases None show ?thesis by auto
    next
      case False
      with p t None have "d' = d2" "err = None" by (auto simp: process_company_def)
      with cases None show ?thesis by auto
    qed
  qed
qed

lemma job_update_fields [simp]:
  "job_id (completed_update j) = job_id j" "job_id (failed_update j) = job_id j"
  "total_items (completed_update j) = total_items j" "total_items (failed_update j) = total_items j"
  "status (completed_update j) = status j" "status (failed_update j) = status j"
  "completed_items (completed_update j) = completed_items j + 1"
  "failed_items (completed_update j) = failed_items j"
  "completed_items (failed_update j) = completed_items j"
  "failed_items (failed_update j) = failed_items j + 1"
  by (simp_all add: completed_update_def failed_update_def)

lemma db_get_job_map:
  assumes "jobs d' = map (\<lambda>j. if job_id j = jid then f j else j) (jobs d)"
    and "\<And>j. job_id (f j) = job_id j"
  shows "db_get_job d' jid' = map_option (\<lambda>j. if job_id j = jid then f j else j) (db_get_job d jid')"
proof -
  have "\<And>j. job_id (if job_id j = jid then f j else j) = job_id j" using assms(2) by simp
  then show ?thesis
    unfolding db_get_job_def assms(1) by (rule find_map_same_id)
qed

lemma process_company_counters:
  assumes "process_company cfg ag accepts nw provider jid org sites i c d = (d', err)"
    and "db_get_job d jid = Some a"
  shows "\<exists>b. db_get_job d' jid = Some b \<and> total_items b = total_items a \<and> status b = status a
           \<and> (err \<noteq> None \<longrightarrow> b = a)
           \<and> (err = None \<longrightarrow>
                 (completed_items b = completed_items a + 1 \<and> failed_items b = failed_items a)
               \<or> (completed_items b = completed_items a \<and> failed_items b = failed_items a + 1))"
proof -
  have id: "job_id a = jid" using assms(2) db_get_job_id by blast
  from process_company_cases [OF assms(1)]
  consider (s) "err = None" "jobs d' = map (\<lambda>j. if job_id j = jid then completed_update j else j) (jobs d)"
    | (f) "err = None" "jobs d' = map (\<lambda>j. if job_id j = jid then failed_update j else j) (jobs d)"
    | (a) "err \<noteq> None" "jobs d' = jobs d"
    by auto
  then show ?thesis
  proof cases
    case s
    from db_get_job_map [OF s(2), of jid] assms(2) id s(1) show ?thesis by simp
  next
    case f
    from db_get_job_map [OF f(2), of jid] assms(2) id f(1) show ?thesis by simp
  next
    case a
    with assms(2) db_get_job_tables [OF a(2), of jid] show ?thesis by simp
  qed
qed

lemma run_items_counters:
  "run_items cfg ag accepts nw provider deadline jid org sites i items d = (d', err) \<Longrightarrow>
   db_get_job d jid = Some a \<Longrightarrow>
   \<exists>b. db_get_job d' jid = Some b \<and> total_items b = total_items a \<and> status b = status a
      \<and> completed_items a \<le> completed_items b \<and> failed_items a \<le> failed_items b
      \<and> completed_items b + failed_items b \<le> completed_items a + failed_items a + int (length items)
      \<and> (err = None \<longrightarrow>
            completed_items b + failed_items b = completed_items a + failed_items a + int (length items))"
proof (induction items arbitrary: i d a)
  case Nil
  then show ?case by simp
next
  case (Cons c rest)
  show ?case
  proof (cases "deadline = Some i")
    case True
    with Cons.prems show ?thesis by auto
  next
    case False
    obtain d1 e1 where p: "process_company cfg ag accepts nw provider jid org sites i c d = (d1, e1)"
      by (cases "process_company cfg ag accepts nw provider jid org sites i c d") auto
    from process_company_counters [OF p Cons.prems(2)]
    obtain b1 where b1: "db_get_job d1 jid = Some b1" "total_items b1 = total_items a" "status b1 = status a"
      "e1 \<noteq> None \<longrightarrow> b1 = a"
      "e1 = None \<longrightarrow> (completed_items b1 = completed_items a + 1 \<and> failed_items b1 = failed_items a)
               \<or> (completed_items b1 = completed_items a \<and> failed_items b1 = failed_items a + 1)"
      by blast
    show ?thesis
    proof (cases e1)
      case (Some e)
      with Cons.prems(1) False p have "d' = d1" "err = Some e" by simp_all
      with b1 Some show ?thesis by auto
    next
      case None
      with Cons.prems(1) False p
      have r: "run_items cfg ag accepts nw provider deadline jid org sites (Suc i) rest d1 = (d', err)"
        by simp
      from Cons.IH [OF r b1(1)] b1 None show ?thesis by auto
    qed
  qed
qed

lemma run_items_append:
  "run_items cfg ag accepts nw provider deadline jid org sites i (xs @ ys) d =
     (case run_items cfg ag accepts nw provider deadline jid org sites i xs d of
        (d', Some e) \<Rightarrow> (d', Some e)
      | (d', None) \<Rightarrow> run_items cfg ag accepts nw provider deadline jid org sites (i + length xs) ys d')"
proof (induction xs arbitrary: i d)
  case Nil
  then show ?case by simp
next
  case (Cons c rest)
  show ?case
    using Cons.IH by (auto split: prod.splits option.splits)
qed


lemma db_get_job_mark_running:
  "db_get_job (mark_running t task jid d) jid' =
     map_option (\<lambda>j. if job_id j = jid
                       then j\<lparr>status := Running, started_at := Some t, celery_task_id := Some task\<rparr> else j)
       (db_get_job d jid')"
  unfolding mark_running_def by (rule db_get_job_update_jobs) simp

lemma db_get_job_mark_complete:
  "db_get_job (mark_complete t jid d) jid' =
     map_option (\<lambda>j. if job_id j = jid
                       then j\<lparr>status := Completed, completed_at := Some t, progress_pct := 100\<rparr> else j)
       (db_get_job d jid')"
  unfolding mark_complete_def by (rule db_get_job_update_jobs) simp

lemma db_get_job_mark_job_failed:
  "db_get_job (mark_job_failed t jid err d) jid' =
     map_option (\<lambda>j. if job_id j = jid \<and> status j \<in> {Queued, Running}
                       then j\<lparr>status := Failed, error_message := Some (take 1000 err), completed_at := Some t\<rparr>
                       else j)
       (db_get_job d jid')"
  unfolding mark_job_failed_def by (rule db_get_job_update_jobs) simp

lemma db_get_job_mark_job_partial:
  "db_get_job (mark_job_partial t jid msg d) jid' =
     map_option (\<lambda>j. if job_id j = jid \<and> status j = Running
                       then j\<lparr>status := Partial, error_message := Some msg, completed_at := Some t\<rparr>
                       else j)
       (db_get_job d jid')"
  unfolding mark_job_partial_def by (rule db_get_job_update_jobs) simp

lemma run_job_counters:
  assumes "db_get_job d jid = Some a"
  shows "\<exists>b. db_get_job (fst (run_job cfg accepts nw provider deadline t0 t1 task jid org d)) jid = Some b
           \<and> total_items b = total_items a
           \<and> completed_items a \<le> completed_items b \<and> failed_items a \<le> failed_items b
           \<and> completed_items b + failed_items b
                \<le> completed_items a + failed_items a + int (length (companies a))"
proof (cases "EnrichmentAgent cfg")
  case (Inl e)
  with assms show ?thesis by (simp add: run_job_def)
next
  case (Inr ag)
  have id: "job_id a = jid" using assms db_get_job_id by blast
  let ?d1 = "mark_running t0 task jid d"
  let ?a1 = "a\<lparr>status := Running, started_at := Some t0, celery_task_id := Some task\<rparr>"
  have g1: "db_get_job ?d1 jid = Some ?a1"
    using assms id by (simp add: db_get_job_mark_running)
  obtain d2 err where r: "run_items cfg ag accepts nw provider deadline jid org (websites a) 0 (companies a) ?d1 = (d2, err)"
    by (cases "run_items cfg ag accepts nw provider deadline jid org (websites a) 0 (companies a) ?d1") auto
  from run_items_counters [OF r g1]
  obtain b where b: "db_get_job d2 jid = Some b" "total_items b = total_items a"
    "completed_items a \<le> completed_items b" "failed_items a \<le> failed_items b"
    "completed_items b + failed_items b \<le> completed_items a + failed_items a + int (length (companies a))"
    by auto
  have idb: "job_id b = jid" using b(1) db_get_job_id by blast
  show ?thesis
  proof (cases err)
    case None
    with Inr assms r have "fst (run_job cfg accepts nw provider deadline t0 t1 task jid org d) = mark_complete t1 jid d2"
      by (simp add: run_job_def)
    with b idb show ?thesis by (simp add: db_get_job_mark_complete)
  next
    case (Some e)
    with Inr assms r have "fst (run_job cfg accepts nw provider deadline t0 t1 task jid org d) = d2"
      by (simp add: run_job_def)
    with b show ?thesis by simp
  qed
qed

lemma enrich_job_task_counters:
  assumes "db_get_job d jid = Some a"
  shows "\<exists>b. db_get_job (fst (enrich_job_task cfg accepts nw provider deadline t0 t1 task retries jid org d)) jid = Some b
           \<and> total_items b = total_items a
           \<and> completed_items a \<le> completed_items b \<and> failed_items a \<le> failed_items b
           \<and> completed_items b + failed_items b
                \<le> completed_items a + failed_items a + int (length (companies a))"
proof -
  obtain d2 err where r: "run_job cfg accepts nw provider deadline t0 t1 task jid org d = (d2, err)"
    by (cases "run_job cfg accepts nw provider deadline t0 t1 task jid org d") auto
  from run_job_counters [OF assms, of cfg accepts nw provider deadline t0 t1 task org] r
  obtain b where b: "db_get_job d2 jid = Some b" "total_items b = total_items a"
    "completed_items a \<le> completed_items b" "failed_items a \<le> failed_items b"
    "completed_items b + failed_items b \<le> completed_items a + failed_items a + int (length (companies a))"
    by auto
  have "fst (enrich_job_task cfg accepts nw provider deadline t0 t1 task retries jid org d) = d2
        \<or> (\<exists>msg. fst (enrich_job_task cfg accepts nw provider deadline t0 t1 task retries jid org d)
                   = mark_job_partial t1 jid msg d2)
        \<or> (\<exists>msg. fst (enrich_job_task cfg accepts nw provider deadline t0 t1 task retries jid org d)
                   = mark_job_failed t1 jid msg d2)"
    using r by (auto simp: enrich_job_task_def split: option.splits)
  with b show ?thesis
    by (auto simp: db_get_job_mark_job_partial db_get_job_mark_job_failed)
qed

lemma create_job_fresh:
  assumes "create_job cfg now jid task_id org d0 req = Inr (d1, j)"
    and "\<forall>x \<in> set (jobs d0). job_id x \<noteq> jid"
  shows "db_get_job d1 jid = Some j \<and> completed_items j = 0 \<and> failed_items j = 0
         \<and> total_items j = int (length (companies j)) \<and> status j = Queued
         \<and> results d1 = results d0 \<and> usage_logs d1 = usage_logs d0"
proof -
  from assms(1) have j: "job_id j = jid" "completed_items j = 0" "failed_items j = 0"
    "total_items j = int (length (companies j))" "status j = Queued" and d1: "d1 = d0\<lparr>jobs := jobs d0 @ [j]\<rparr>"
    by (auto simp: create_job_def Let_def split: if_splits)
  have fa: "\<And>xs. \<forall>x \<in> set xs. job_id x \<noteq> jid \<Longrightarrow> List.find (\<lambda>x. job_id x = jid) (xs @ [j]) = Some j"
  proof -
    fix xs :: "job list"
    show "\<forall>x \<in> set xs. job_id x \<noteq> jid \<Longrightarrow> List.find (\<lambda>x. job_id x = jid) (xs @ [j]) = Some j"
      using j(1) by (induction xs) auto
  qed
  have "db_get_job d1 jid = Some j"
    using fa [OF assms(2)] by (simp add: db_get_job_def d1)
  with j d1 show ?thesis by simp
qed




lemma results_unique_append:
  assumes "results_unique d" "results d' = results d @ [r]" "r_job_id r = Some jid" "input_name r = c"
    "key_free d jid c"
  shows "results_unique d'"
  using assms by (auto simp: results_unique_def key_free_def)




lemma results_mark [simp]:
  "results (mark_running t task jid d) = results d"
  "results (mark_complete t jid d) = results d"
  "results (mark_job_failed t jid msg d) = results d"
  "results (mark_job_partial t jid msg d) = results d"
  by (simp_all add: mark_running_def mark_complete_def mark_job_failed_def mark_job_partial_def)











section \<open>Result rows back the counters\<close>

lemma distinct_names_of_keys:
  "distinct (map (\<lambda>r. (r_job_id r, input_name r)) (filter (\<lambda>r. r_job_id r \<noteq> None) rs))
     \<Longrightarrow> distinct (map input_name (filter (\<lambda>r. r_job_id r = Some jid) rs))"
proof (induction rs)
  case Nil
  then show ?case by simp
next
  case (Cons a rs)
  show ?case
  proof (cases "r_job_id a = Some jid")
    case False
    with Cons show ?thesis by (cases "r_job_id a") auto
  next
    case True
    with Cons.prems have notin: "(Some jid, input_name a)
          \<notin> set (map (\<lambda>r. (r_job_id r, input_name r)) (filter (\<lambda>r. r_job_id r \<noteq> None) rs))"
      and d: "distinct (map (\<lambda>r. (r_job_id r, input_name r)) (filter (\<lambda>r. r_job_id r \<noteq> None) rs))"
      by simp_all
    have "input_name a \<notin> set (map input_name (filter (\<lambda>r. r_job_id r = Some jid) rs))"
    proof
      assume "input_name a \<in> set (map input_name (filter (\<lambda>r. r_job_id r = Some jid) rs))"
      then obtain x where x: "x \<in> set rs" "r_job_id x = Some jid" "input_name x = input_name a"
        by auto
      then have "(Some jid, input_name a)
          \<in> set (map (\<lambda>r. (r_job_id r, input_name r)) (filter (\<lambda>r. r_job_id r \<noteq> None) rs))"
        by (auto simp: image_iff intro!: bexI [of _ x])
      with notin show False by contradiction
    qed
    with True Cons.IH [OF d] show ?thesis by simp
  qed
qed

lemma job_rows_names_distinct:
  "results_unique d \<Longrightarrow> distinct (map input_name (job_rows d jid))"
  unfolding results_unique_def job_rows_def by (rule distinct_names_of_keys)

lemma job_backed_bound:
  assumes u: "results_unique d" and b: "job_backed d j"
  shows "0 \<le> completed_items j \<and> 0 \<le> failed_items j
       \<and> completed_items j + failed_items j \<le> total_items j
       \<and> total_items j = int (length (companies j))"
proof -
  let ?rows = "job_rows d (job_id j)"
  from b have b: "0 \<le> completed_items j" "0 \<le> failed_items j"
    "completed_items j + failed_items j \<le> int (length ?rows)"
    "set (map input_name ?rows) \<subseteq> set (companies j)"
    "total_items j = int (length (companies j))"
    by (simp_all add: job_backed_def)
  have "length ?rows = length (map input_name ?rows)" by simp
  also have "\<dots> = card (set (map input_name ?rows))"
    using distinct_card [OF job_rows_names_distinct [OF u, of "job_id j"]] by (rule sym)
  also have "\<dots> \<le> card (set (companies j))"
    using b(4) by (rule card_mono [OF finite_set])
  also have "\<dots> \<le> length (companies j)" by (rule card_length)
  finally have "length ?rows \<le> length (companies j)" .
  with b show ?thesis by simp
qed

lemma db_invariant_bound:
  assumes "db_invariant d" "j \<in> set (jobs d)"
  shows "0 \<le> completed_items j \<and> 0 \<le> failed_items j
       \<and> completed_items j + failed_items j \<le> total_items j
       \<and> total_items j = int (length (companies j))"
  using assms job_backed_bound [of d j] by (simp add: db_invariant_def)

lemma db_invariant_empty: "db_invariant empty_db"
  by (simp add: db_invariant_def empty_db_def results_unique_def)

lemma job_rows_eq: "results d' = results d \<Longrightarrow> job_rows d' k = job_rows d k"
  by (simp add: job_rows_def)

lemma db_invariant_update_jobs:
  assumes u: "\<And>j. job_id (u j) = job_id j \<and> companies (u j) = companies j
                 \<and> total_items (u j) = total_items j
                 \<and> completed_items (u j) = completed_items j \<and> failed_items (u j) = failed_items j"
    and inv: "db_invariant d"
  shows "db_invariant (update_jobs c u d)
       \<and> map (\<lambda>j. (job_id j, companies j)) (jobs (update_jobs c u d))
           = map (\<lambda>j. (job_id j, companies j)) (jobs d)"
proof -
  let ?g = "\<lambda>j. if c j then u j else j"
  let ?d = "update_jobs c u d"
  have ids: "map job_id (jobs ?d) = map job_id (jobs d)"
    using u by (simp add: comp_def)
  have shape: "map (\<lambda>j. (job_id j, companies j)) (jobs ?d) = map (\<lambda>j. (job_id j, companies j)) (jobs d)"
    using u by (simp add: comp_def)
  have rows: "\<And>k. job_rows ?d k = job_rows d k" by (simp add: job_rows_def)
  have backed: "\<And>j. job_backed ?d (?g j) = job_backed d j"
    using u by (simp add: job_backed_def rows)
  have uq: "results_unique ?d" using inv by (simp add: db_invariant_def results_unique_def)
  have fk: "\<forall>r \<in> set (results ?d). case r_job_id r of None \<Rightarrow> True | Some k \<Rightarrow> k \<in> set (map job_id (jobs ?d))"
    unfolding ids using inv by (simp add: db_invariant_def)
  have all: "\<forall>j \<in> set (jobs ?d). job_backed ?d j"
  proof
    fix j' assume "j' \<in> set (jobs ?d)"
    then obtain j where j: "j \<in> set (jobs d)" "j' = ?g j" by auto
    from inv j(1) have "job_backed d j" by (simp add: db_invariant_def)
    with backed [of j] j(2) show "job_backed ?d j'" by simp
  qed
  have "distinct (map job_id (jobs ?d))" unfolding ids using inv by (simp add: db_invariant_def)
  with uq fk all shape show ?thesis unfolding db_invariant_def by blast
qed

lemma distinct_ids_same_job:
  assumes "distinct (map job_id js)" "a \<in> set js" "b \<in> set js" "job_id a = job_id b"
  shows "a = b"
  using assms by (meson distinct_map inj_on_eq_iff)

lemma db_invariant_item:
  assumes inv: "db_invariant d"
    and res: "results d' = results d @ [r]" "r_job_id r = Some jid" "input_name r = c" "key_free d jid c"
    and js: "jobs d' = map (\<lambda>j. if job_id j = jid then f j else j) (jobs d)"
    and f: "\<And>j. job_id (f j) = job_id j \<and> companies (f j) = companies j
                 \<and> total_items (f j) = total_items j
                 \<and> completed_items j \<le> completed_items (f j) \<and> failed_items j \<le> failed_items (f j)
                 \<and> completed_items (f j) + failed_items (f j) \<le> completed_items j + failed_items j + 1"
    and mem: "a \<in> set (jobs d)" "job_id a = jid" "c \<in> set (companies a)"
  shows "db_invariant d'
       \<and> map (\<lambda>j. (job_id j, companies j)) (jobs d') = map (\<lambda>j. (job_id j, companies j)) (jobs d)"
proof -
  let ?g = "\<lambda>j. if job_id j = jid then f j else j"
  have ids: "map job_id (jobs d') = map job_id (jobs d)"
    unfolding js using f by (simp add: comp_def)
  have shape: "map (\<lambda>j. (job_id j, companies j)) (jobs d') = map (\<lambda>j. (job_id j, companies j)) (jobs d)"
    unfolding js using f by (simp add: comp_def)
  have dist: "distinct (map job_id (jobs d))" using inv by (simp add: db_invariant_def)
  have uq: "results_unique d'"
    using results_unique_append [OF _ res] inv by (simp add: db_invariant_def)
  have rows: "\<And>k. job_rows d' k = (if k = jid then job_rows d jid @ [r] else job_rows d k)"
    using res(1,2) by (auto simp: job_rows_def)
  have fk: "\<forall>x \<in> set (results d'). case r_job_id x of None \<Rightarrow> True | Some k \<Rightarrow> k \<in> set (map job_id (jobs d'))"
    unfolding ids using inv res(1,2) mem(1,2) by (auto simp: db_invariant_def)
  have all: "\<forall>j \<in> set (jobs d'). job_backed d' j"
  proof
    fix j' assume "j' \<in> set (jobs d')"
    then obtain j where j: "j \<in> set (jobs d)" "j' = ?g j" unfolding js by auto
    from inv j(1) have b: "job_backed d j" by (simp add: db_invariant_def)
    show "job_backed d' j'"
    proof (cases "job_id j = jid")
      case True
      with dist mem j(1) have "j = a" using distinct_ids_same_job [of "jobs d" j a] by simp
      with mem(3) have cj: "c \<in> set (companies j)" by simp
      from True j(2) have j': "j' = f j" by simp
      from b cj f [of j] True res(3) show ?thesis
        unfolding j' job_backed_def by (auto simp: rows)
    next
      case False
      with j(2) have "j' = j" by simp
      with b False show ?thesis by (simp add: job_backed_def rows)
    qed
  qed
  have "distinct (map job_id (jobs d'))" unfolding ids by (rule dist)
  with uq fk all shape show ?thesis unfolding db_invariant_def by blast
qed

lemma job_update_more_fields [simp]:
  "companies (completed_update j) = companies j" "companies (failed_update j) = companies j"
  by (simp_all add: completed_update_def failed_update_def)

lemma process_company_invariant:
  assumes p: "process_company cfg ag accepts nw provider jid org sites i c d = (d', err)"
    and inv: "db_invariant d"
    and mem: "a \<in> set (jobs d)" "job_id a = jid" "c \<in> set (companies a)"
  shows "db_invariant d'
       \<and> map (\<lambda>j. (job_id j, companies j)) (jobs d') = map (\<lambda>j. (job_id j, companies j)) (jobs d)"
proof -
  from process_company_cases [OF p]
  consider (s) r where "jobs d' = map (\<lambda>j. if job_id j = jid then completed_update j else j) (jobs d)"
      "results d' = results d @ [r]" "r_job_id r = Some jid" "input_name r = c" "key_free d jid c"
    | (f) r where "jobs d' = map (\<lambda>j. if job_id j = jid then failed_update j else j) (jobs d)"
      "results d' = results d @ [r]" "r_job_id r = Some jid" "input_name r = c" "key_free d jid c"
    | (same) "d' = d"
    | (row) r where "jobs d' = jobs d"
      "results d' = results d @ [r]" "r_job_id r = Some jid" "input_name r = c" "key_free d jid c"
    by blast
  then show ?thesis
  proof cases
    case s
    show ?thesis
      by (rule db_invariant_item [OF inv s(2-5) s(1) _ mem]) simp
  next
    case f
    show ?thesis
      by (rule db_invariant_item [OF inv f(2-5) f(1) _ mem]) simp
  next
    case same
    with inv show ?thesis by simp
  next
    case row
    have js: "jobs d' = map (\<lambda>j. if job_id j = jid then (\<lambda>x. x) j else j) (jobs d)"
      using row(1) by simp
    show ?thesis
      by (rule db_invariant_item [OF inv row(2-5) js _ mem]) simp
  qed
qed

lemma run_items_invariant:
  "run_items cfg ag accepts nw provider deadline jid org sites i items d = (d', err) \<Longrightarrow>
   db_invariant d \<Longrightarrow>
   (jid, cs) \<in> set (map (\<lambda>j. (job_id j, companies j)) (jobs d)) \<Longrightarrow> set items \<subseteq> set cs \<Longrightarrow>
   db_invariant d'
   \<and> map (\<lambda>j. (job_id j, companies j)) (jobs d') = map (\<lambda>j. (job_id j, companies j)) (jobs d)"
proof (induction items arbitrary: i d)
  case Nil
  then show ?case by simp
next
  case (Cons c rest)
  show ?case
  proof (cases "deadline = Some i")
    case True
    with Cons.prems show ?thesis by auto
  next
    case False
    obtain d1 e1 where p: "process_company cfg ag accepts nw provider jid org sites i c d = (d1, e1)"
      by (cases "process_company cfg ag accepts nw provider jid org sites i c d") auto
    from Cons.prems(3) obtain a where a: "a \<in> set (jobs d)" "job_id a = jid" "companies a = cs"
      by auto
    with Cons.prems(4) have ca: "c \<in> set (companies a)" by simp
    from process_company_invariant [OF p Cons.prems(2) a(1,2) ca]
    have i1: "db_invariant d1"
      and s1: "map (\<lambda>j. (job_id j, companies j)) (jobs d1) = map (\<lambda>j. (job_id j, companies j)) (jobs d)"
      by simp_all
    show ?thesis
    proof (cases e1)
      case (Some e)
      with Cons.prems(1) False p have "d' = d1" by simp
      with i1 s1 show ?thesis by simp
    next
      case None
      with Cons.prems(1) False p
      have r: "run_items cfg ag accepts nw provider deadline jid org sites (Suc i) rest d1 = (d', err)"
        by simp
      have m1: "(jid, cs) \<in> set (map (\<lambda>j. (job_id j, companies j)) (jobs d1))"
        unfolding s1 by (rule Cons.prems(3))
      from Cons.prems(4) have sub: "set rest \<subseteq> set cs" by simp
      from Cons.IH [OF r i1 m1 sub] s1 show ?thesis by simp
    qed
  qed
qed

lemma mark_invariant:
  assumes "db_invariant d"
  shows "db_invariant (mark_running t task jid d)
       \<and> map (\<lambda>j. (job_id j, companies j)) (jobs (mark_running t task jid d))
           = map (\<lambda>j. (job_id j, companies j)) (jobs d)"
    and "db_invariant (mark_complete t jid d)"
    and "db_invariant (mark_job_failed t jid msg d)"
    and "db_invariant (mark_job_partial t jid msg d)"
  unfolding mark_running_def mark_complete_def mark_job_failed_def mark_job_partial_def
  using db_invariant_update_jobs [OF _ assms] by simp_all

lemma loop_invariant:
  assumes inv: "db_invariant d" and g: "db_get_job d jid = Some a" and sub: "set items \<subseteq> set (companies a)"
  shows "db_invariant (fst (run_items cfg ag accepts nw provider deadline jid org sites i items
                              (mark_running t0 task jid d)))"
proof -
  let ?d = "mark_running t0 task jid d"
  obtain d' err where r: "run_items cfg ag accepts nw provider deadline jid org sites i items ?d = (d', err)"
    by (cases "run_items cfg ag accepts nw provider deadline jid org sites i items ?d") auto
  from db_get_job_id [OF g] have "(jid, companies a) \<in> set (map (\<lambda>j. (job_id j, companies j)) (jobs d))"
    by (auto simp: image_iff intro!: bexI [of _ a])
  with mark_invariant(1) [OF inv, of t0 task jid]
  have i1: "db_invariant ?d" and m: "(jid, companies a) \<in> set (map (\<lambda>j. (job_id j, companies j)) (jobs ?d))"
    by simp_all
  from run_items_invariant [OF r i1 m sub] r show ?thesis by simp
qed

lemma run_job_invariant:
  assumes inv: "db_invariant d"
  shows "db_invariant (fst (run_job cfg accepts nw provider deadline t0 t1 task jid org d))"
proof (cases "EnrichmentAgent cfg")
  case (Inl e)
  with inv show ?thesis by (simp add: run_job_def)
next
  case (Inr ag)
  show ?thesis
  proof (cases "db_get_job d jid")
    case None
    with Inr inv show ?thesis by (simp add: run_job_def)
  next
    case (Some a)
    obtain d2 err where r: "run_items cfg ag accepts nw provider deadline jid org (websites a) 0 (companies a)
                              (mark_running t0 task jid d) = (d2, err)"
      by (cases "run_items cfg ag accepts nw provider deadline jid org (websites a) 0 (companies a)
                   (mark_running t0 task jid d)") auto
    from loop_invariant [OF inv Some subset_refl, of cfg ag accepts nw provider deadline org "websites a" 0 t0 task] r
    have i2: "db_invariant d2" by simp
    with mark_invariant(2) [OF i2] Inr Some r show ?thesis
      by (cases err) (simp_all add: run_job_def)
  qed
qed

lemma enrich_job_task_invariant:
  assumes inv: "db_invariant d"
  shows "db_invariant (fst (enrich_job_task cfg accepts nw provider deadline t0 t1 task retries jid org d))"
proof -
  obtain d2 err where r: "run_job cfg accepts nw provider deadline t0 t1 task jid org d = (d2, err)"
    by (cases "run_job cfg accepts nw provider deadline t0 t1 task jid org d") auto
  from run_job_invariant [OF inv, of cfg accepts nw provider deadline t0 t1 task jid org] r
  have i2: "db_invariant d2" by simp
  with mark_invariant(3,4) [OF i2] r show ?thesis
    by (auto simp: enrich_job_task_def split: option.splits)
qed

lemma stuck_job_cleanup_invariant:
  assumes "db_invariant d"
  shows "db_invariant (fst (stuck_job_cleanup now d))"
  unfolding stuck_job_cleanup_def Let_def fst_conv
  using db_invariant_update_jobs [OF _ assms] by simp

lemma cancel_job_invariant:
  assumes "db_invariant d" "cancel_job now org jid d = Inr d2"
  shows "db_invariant d2"
proof -
  from assms(2) have "d2 = update_jobs (\<lambda>x. job_id x = jid)
                      (\<lambda>x. x\<lparr>status := Cancelled, completed_at := Some now\<rparr>) d"
    by (auto simp: cancel_job_def split: option.splits if_splits)
  with db_invariant_update_jobs [OF _ assms(1)] show ?thesis by simp
qed

lemma create_job_invariant:
  assumes inv: "db_invariant d"
    and c: "create_job cfg now new_id task_id org d req = Inr (d1, j)"
    and fresh: "new_id \<notin> set (map job_id (jobs d))"
  shows "db_invariant d1"
proof -
  from c have j: "job_id j = new_id" "completed_items j = 0" "failed_items j = 0"
    "total_items j = int (length (companies j))"
    and js: "jobs d1 = jobs d @ [j]" and rs: "results d1 = results d"
    by (auto simp: create_job_def Let_def split: if_splits)
  have rows: "\<And>k. job_rows d1 k = job_rows d k" using rs by (simp add: job_rows_def)
  have none: "job_rows d new_id = []"
  proof -
    have "\<forall>r \<in> set (results d). r_job_id r \<noteq> Some new_id"
    proof
      fix r assume "r \<in> set (results d)"
      with inv have "case r_job_id r of None \<Rightarrow> True | Some k \<Rightarrow> k \<in> set (map job_id (jobs d))"
        by (simp add: db_invariant_def)
      with fresh show "r_job_id r \<noteq> Some new_id" by (auto split: option.splits)
    qed
    then show ?thesis by (simp add: job_rows_def filter_empty_conv)
  qed
  have dist: "distinct (map job_id (jobs d1))"
    using inv fresh j(1) js by (simp add: db_invariant_def)
  have uq: "results_unique d1" using inv rs by (simp add: db_invariant_def results_unique_def)
  have fk: "\<forall>r \<in> set (results d1). case r_job_id r of None \<Rightarrow> True | Some k \<Rightarrow> k \<in> set (map job_id (jobs d1))"
    using inv rs js by (auto simp: db_invariant_def split: option.splits)
  have old: "\<forall>x \<in> set (jobs d). job_backed d1 x"
    using inv by (simp add: db_invariant_def job_backed_def rows)
  have new: "job_backed d1 j"
    using j none by (simp add: job_backed_def rows)
  from dist uq fk old new js show ?thesis by (simp add: db_invariant_def)
qed


lemma fresh_job_prefix_counters:
  assumes c: "create_job cfg0 now new_id task_id org0 d req = Inr (d1, j)"
    and f: "new_id \<notin> set (map job_id (jobs d))"
    and k: "k \<le> length (companies j)"
  shows "\<exists>b. db_get_job (fst (run_items cfg ag accepts nw provider deadline new_id org sites 0
                                (take k (companies j)) (mark_running t0 task new_id d1))) new_id = Some b
           \<and> total_items b = int (length (companies j))
           \<and> completed_items b + failed_items b \<le> int k \<and> int k \<le> total_items b
           \<and> (snd (run_items cfg ag accepts nw provider deadline new_id org sites 0
                       (take k (companies j)) (mark_running t0 task new_id d1)) = None
                \<longrightarrow> completed_items b + failed_items b = int k)"
proof -
  from f have f': "\<forall>x \<in> set (jobs d). job_id x \<noteq> new_id" by auto
  from create_job_fresh [OF c f']
  have fresh: "db_get_job d1 new_id = Some j" "completed_items j = 0" "failed_items j = 0"
    "total_items j = int (length (companies j))"
    by simp_all
  have id: "job_id j = new_id" using fresh(1) db_get_job_id by blast
  let ?j1 = "j\<lparr>status := Running, started_at := Some t0, celery_task_id := Some task\<rparr>"
  have g1: "db_get_job (mark_running t0 task new_id d1) new_id = Some ?j1"
    using fresh(1) id by (simp add: db_get_job_mark_running)
  obtain d' err where r: "run_items cfg ag accepts nw provider deadline new_id org sites 0
                             (take k (companies j)) (mark_running t0 task new_id d1) = (d', err)"
    by (cases "run_items cfg ag accepts nw provider deadline new_id org sites 0
                 (take k (companies j)) (mark_running t0 task new_id d1)") auto
  from run_items_counters [OF r g1] obtain b where b: "db_get_job d' new_id = Some b"
    "total_items b = total_items ?j1" "completed_items ?j1 \<le> completed_items b"
    "failed_items ?j1 \<le> failed_items b"
    "completed_items b + failed_items b
       \<le> completed_items ?j1 + failed_items ?j1 + int (length (take k (companies j)))"
    "err = None \<longrightarrow> completed_items b + failed_items b
       = completed_items ?j1 + failed_items ?j1 + int (length (take k (companies j)))"
    by blast
  from k have lk: "length (take k (companies j)) = k" by simp
  from b fresh k lk r show ?thesis by simp
qed


section \<open>Progress counters stay within the total\<close>

text \<open>
  Claim C4. \<open>db_invariant\<close> holds of the empty database, and every operation on jobs
  keeps it: a submission under an identifier no job has, every prefix of the loop of a
  delivery for any job (so every point between two items), a whole delivery of the task
  with whatever marker ends it, also a repeated one, the sweep and a cancellation,
  whatever the agent, the provider and the deadline do. In a database with the invariant
  every job has counters that are not negative, a sum of the two that is at most
  \<open>total_items\<close>, and a \<open>total_items\<close> that is the length of its item list. For a job
  just created, after \<open>k\<close> steps of the loop the sum is at most \<open>k\<close>, and exactly
  \<open>k\<close> when no exception has left the loop. A step that no exception leaves raises
  exactly one of the two counters by exactly one. (\<open>run_items_append\<close>: the run over the
  first \<open>k\<close> items is the state of the whole run after \<open>k\<close> items.)
\<close>

theorem counters_within_total:
  "db_invariant empty_db
   \<and> (db_invariant d \<longrightarrow>
        (\<forall>b \<in> set (jobs d). 0 \<le> completed_items b \<and> 0 \<le> failed_items b
             \<and> completed_items b + failed_items b \<le> total_items b
             \<and> total_items b = int (length (companies b)))
      \<and> (create_job cfg0 now new_id task_id org0 d req = Inr (d1, j)
           \<and> new_id \<notin> set (map job_id (jobs d)) \<longrightarrow> db_invariant d1)
      \<and> (\<forall>a k. db_get_job d jid = Some a \<and> k \<le> length (companies a) \<longrightarrow>
            db_invariant (fst (run_items cfg ag accepts nw provider deadline jid org sites 0
                                 (take k (companies a)) (mark_running t0 task jid d))))
      \<and> db_invariant (fst (enrich_job_task cfg accepts nw provider deadline t0 t1 task retries jid org d))
      \<and> db_invariant (fst (stuck_job_cleanup t1 d))
      \<and> (\<forall>d2. cancel_job t1 org jid d = Inr d2 \<longrightarrow> db_invariant d2))
   \<and> (create_job cfg0 now new_id task_id org0 d req = Inr (d1, j)
        \<and> new_id \<notin> set (map job_id (jobs d)) \<longrightarrow>
        (\<forall>k \<le> length (companies j).
           \<exists>b. db_get_job (fst (run_items cfg ag accepts nw provider deadline new_id org sites 0
                                   (take k (companies j)) (mark_running t0 task new_id d1))) new_id = Some b
              \<and> total_items b = int (length (companies j))
              \<and> completed_items b + failed_items b \<le> int k \<and> int k \<le> total_items b
              \<and> (snd (run_items cfg ag accepts nw provider deadline new_id org sites 0
                          (take k (companies j)) (mark_running t0 task new_id d1)) = None
                   \<longrightarrow> completed_items b + failed_items b = int k)))
   \<and> (\<forall>x a x' i c. db_get_job x jid = Some a
           \<and> process_company cfg ag accepts nw provider jid org sites i c x = (x', None)
         \<longrightarrow> (\<exists>b. db_get_job x' jid = Some b \<and> total_items b = total_items a
                \<and> ((completed_items b = completed_items a + 1 \<and> failed_items b = failed_items a)
                   \<or> (completed_items b = completed_items a \<and> failed_items b = failed_items a + 1))))"
proof (intro conjI impI allI ballI)
  show "db_invariant empty_db" by (rule db_invariant_empty)
next
  fix b assume "db_invariant d" "b \<in> set (jobs d)"
  from db_invariant_bound [OF this] show "0 \<le> completed_items b" "0 \<le> failed_items b"
    "completed_items b + failed_items b \<le> total_items b" "total_items b = int (length (companies b))"
    by simp_all
next
  assume "db_invariant d" and "create_job cfg0 now new_id task_id org0 d req = Inr (d1, j)
           \<and> new_id \<notin> set (map job_id (jobs d))"
  then show "db_invariant d1" using create_job_invariant by blast
next
  fix a k assume inv: "db_invariant d" and h: "db_get_job d jid = Some a \<and> k \<le> length (companies a)"
  from h have g: "db_get_job d jid = Some a" by simp
  show "db_invariant (fst (run_items cfg ag accepts nw provider deadline jid org sites 0
                                 (take k (companies a)) (mark_running t0 task jid d)))"
    by (rule loop_invariant [OF inv g set_take_subset])
next
  assume "db_invariant d"
  then show "db_invariant (fst (enrich_job_task cfg accepts nw provider deadline t0 t1 task retries jid org d))"
    by (rule enrich_job_task_invariant)
next
  assume "db_invariant d"
  then show "db_invariant (fst (stuck_job_cleanup t1 d))" by (rule stuck_job_cleanup_invariant)
next
  fix d2 assume "db_invariant d" "cancel_job t1 org jid d = Inr d2"
  then show "db_invariant d2" by (rule cancel_job_invariant)
next
  fix k assume h: "create_job cfg0 now new_id task_id org0 d req = Inr (d1, j)
        \<and> new_id \<notin> set (map job_id (jobs d))" and k: "k \<le> length (companies j)"
  from h have c: "create_job cfg0 now new_id task_id org0 d req = Inr (d1, j)"
    and f: "new_id \<notin> set (map job_id (jobs d))" by simp_all
  show "\<exists>b. db_get_job (fst (run_items cfg ag accepts nw provider deadline new_id org sites 0
                                   (take k (companies j)) (mark_running t0 task new_id d1))) new_id = Some b
              \<and> total_items b = int (length (companies j))
              \<and> completed_items b + failed_items b \<le> int k \<and> int k \<le> total_items b
              \<and> (snd (run_items cfg ag accepts nw provider deadline new_id org sites 0
                          (take k (companies j)) (mark_running t0 task new_id d1)) = None
                   \<longrightarrow> completed_items b + failed_items b = int k)"
    by (rule fresh_job_prefix_counters [OF c f k])
next
  fix x a x' i c
  assume a: "db_get_job x jid = Some a
           \<and> process_company cfg ag accepts nw provider jid org sites i c x = (x', None)"
  from process_company_counters [of cfg ag accepts nw provider jid org sites i c x x' None a] a
  show "\<exists>b. db_get_job x' jid = Some b \<and> total_items b = total_items a
                \<and> ((completed_items b = completed_items a + 1 \<and> failed_items b = failed_items a)
                   \<or> (completed_items b = completed_items a \<and> failed_items b = failed_items a + 1))"
    by auto
qed

theorem counters_within_total_witness:
  "db_invariant queued_db
   \<and> db_invariant (fst (enrich_job_task sample_settings json_accepts sample_net sample_provider None
                           5 9 ''task-1'' 0 1 7 queued_db))
   \<and> db_invariant (fst (enrich_job_task sample_settings json_accepts sample_net sample_provider None
                           15 19 ''task-1'' 1 1 7
                           (fst (enrich_job_task sample_settings json_accepts sample_net sample_provider None
                                   5 9 ''task-1'' 0 1 7 queued_db))))
   \<and> (\<exists>b. db_get_job (fst (enrich_job_task sample_settings json_accepts sample_net sample_provider None
                           15 19 ''task-1'' 1 1 7
                           (fst (enrich_job_task sample_settings json_accepts sample_net sample_provider None
                                   5 9 ''task-1'' 0 1 7 queued_db)))) 1 = Some b
          \<and> completed_items b = 1 \<and> failed_items b = 2 \<and> total_items b = 3
          \<and> completed_items b + failed_items b \<le> total_items b)
   \<and> (\<exists>b. db_get_job (fst (run_items sample_settings sample_agent json_accepts sample_net sample_provider None 1 7
                               Map.empty 0 (take 2 (companies queued_job))
                               (mark_running 5 ''task-1'' 1 queued_db))) 1 = Some b
          \<and> total_items b = 3 \<and> completed_items b + failed_items b \<le> 2)"
proof -
  let ?D2 = "fst (enrich_job_task sample_settings json_accepts sample_net sample_provider None
                           5 9 ''task-1'' 0 1 7 queued_db)"
  let ?D3 = "fst (enrich_job_task sample_settings json_accepts sample_net sample_provider None
                           15 19 ''task-1'' 1 1 7 ?D2)"
  have f: "1 \<notin> set (map job_id (jobs empty_db))" by (simp add: empty_db_def)
  have len: "length (companies queued_job) = 3" by (simp add: queued_job_def)
  note tA = counters_within_total [where d = empty_db and ?cfg0.0 = sample_settings and now = 0 and new_id = 1
      and task_id = "''task-1''" and ?org0.0 = 7 and req = sample_request and ?d1.0 = queued_db
      and j = queued_job and jid = 1 and cfg = sample_settings and ag = sample_agent and accepts = json_accepts
      and nw = sample_net and provider = sample_provider and deadline = None and org = 7
      and sites = Map.empty and ?t0.0 = 5 and task = "''task-1''" and ?t1.0 = 9 and retries = 0]
  from tA create_job_sample f have i1: "db_invariant queued_db" by blast
  from tA create_job_sample f
  have a: "\<forall>k \<le> length (companies queued_job).
        \<exists>b. db_get_job (fst (run_items sample_settings sample_agent json_accepts sample_net sample_provider None 1 7
                                Map.empty 0 (take k (companies queued_job))
                                (mark_running 5 ''task-1'' 1 queued_db))) 1 = Some b
           \<and> total_items b = int (length (companies queued_job))
           \<and> completed_items b + failed_items b \<le> int k \<and> int k \<le> total_items b
           \<and> (snd (run_items sample_settings sample_agent json_accepts sample_net sample_provider None 1 7
                       Map.empty 0 (take k (companies queued_job))
                       (mark_running 5 ''task-1'' 1 queued_db)) = None
                \<longrightarrow> completed_items b + failed_items b = int k)"
    by blast
  have "(2::nat) \<le> length (companies queued_job)" using len by simp
  with a have "\<exists>b. db_get_job (fst (run_items sample_settings sample_agent json_accepts sample_net sample_provider None 1 7
                               Map.empty 0 (take 2 (companies queued_job))
                               (mark_running 5 ''task-1'' 1 queued_db))) 1 = Some b
           \<and> total_items b = int (length (companies queued_job))
           \<and> completed_items b + failed_items b \<le> int 2 \<and> int 2 \<le> total_items b
           \<and> (snd (run_items sample_settings sample_agent json_accepts sample_net sample_provider None 1 7
                       Map.empty 0 (take 2 (companies queued_job))
                       (mark_running 5 ''task-1'' 1 queued_db)) = None
                \<longrightarrow> completed_items b + failed_items b = int 2)"
    by blast
  then have p: "\<exists>b. db_get_job (fst (run_items sample_settings sample_agent json_accepts sample_net sample_provider None 1 7
                               Map.empty 0 (take 2 (companies queued_job))
                               (mark_running 5 ''task-1'' 1 queued_db))) 1 = Some b
          \<and> total_items b = 3 \<and> completed_items b + failed_items b \<le> 2"
    using len by auto
  note tB = counters_within_total [where d = queued_db and ?cfg0.0 = sample_settings and now = 0 and new_id = 1
      and task_id = "''task-1''" and ?org0.0 = 7 and req = sample_request and ?d1.0 = queued_db
      and j = queued_job and jid = 1 and cfg = sample_settings and ag = sample_agent and accepts = json_accepts
      and nw = sample_net and provider = sample_provider and deadline = None and org = 7
      and sites = Map.empty and ?t0.0 = 5 and task = "''task-1''" and ?t1.0 = 9 and retries = 0]
  from tB i1 have i2: "db_invariant ?D2" by blast
  note tC = counters_within_total [where d = ?D2 and ?cfg0.0 = sample_settings and now = 0 and new_id = 1
      and task_id = "''task-1''" and ?org0.0 = 7 and req = sample_request and ?d1.0 = queued_db
      and j = queued_job and jid = 1 and cfg = sample_settings and ag = sample_agent and accepts = json_accepts
      and nw = sample_net and provider = sample_provider and deadline = None and org = 7
      and sites = Map.empty and ?t0.0 = 15 and task = "''task-1''" and ?t1.0 = 19 and retries = 1]
  from tC i2 have i3: "db_invariant ?D3" by blast
  note tD = counters_within_total [where d = ?D3 and ?cfg0.0 = sample_settings and now = 0 and new_id = 1
      and task_id = "''task-1''" and ?org0.0 = 7 and req = sample_request and ?d1.0 = queued_db
      and j = queued_job and jid = 1 and cfg = sample_settings and ag = sample_agent and accepts = json_accepts
      and nw = sample_net and provider = sample_provider and deadline = None and org = 7
      and sites = Map.empty and ?t0.0 = 15 and task = "''task-1''" and ?t1.0 = 19 and retries = 1]
  from tD i3 have bound: "\<forall>b \<in> set (jobs ?D3). completed_items b + failed_items b \<le> total_items b"
    by blast
  have "map_option (\<lambda>b. (completed_items b, failed_items b, total_items b)) (db_get_job ?D3 1) = Some (1, 2, 3)"
    by code_simp
  then obtain b where b: "db_get_job ?D3 1 = Some b" "completed_items b = 1" "failed_items b = 2"
    "total_items b = 3"
    by auto
  from db_get_job_id [OF b(1)] bound have "completed_items b + failed_items b \<le> total_items b" by blast
  with b have q: "\<exists>b. db_get_job ?D3 1 = Some b
          \<and> completed_items b = 1 \<and> failed_items b = 2 \<and> total_items b = 3
          \<and> completed_items b + failed_items b \<le> total_items b"
    by blast
  from i1 i2 i3 q p show ?thesis by blast
qed


section \<open>One result per job and input name\<close>





section \<open>Terminal states, progress and usage rows on the sample batch\<close>

lemma db_get_job_stuck_job_cleanup:
  "db_get_job (fst (stuck_job_cleanup now d)) jid =
     map_option (\<lambda>j. if is_stuck (now - STUCK_THRESHOLD_HOURS * 3600) j
                       then j\<lparr>status := Failed,
                               error_message := Some ''Auto-reset: job exceeded maximum runtime without completing'',
                               completed_at := Some now\<rparr>
                       else j)
       (db_get_job d jid)"
  unfolding stuck_job_cleanup_def Let_def fst_conv by (rule db_get_job_update_jobs) simp

lemma guarded_writers_keep_terminal:
  assumes "db_get_job d jid = Some j" "terminal (status j)"
  shows "db_get_job (mark_job_failed t jid' msg d) jid = Some j"
    and "db_get_job (mark_job_partial t jid' msg d) jid = Some j"
    and "db_get_job (fst (stuck_job_cleanup now d)) jid = Some j"
    and "\<exists>e. cancel_job now org jid d = Inl e"
  using assms
  by (auto simp: db_get_job_mark_job_failed db_get_job_mark_job_partial db_get_job_stuck_job_cleanup
      terminal_def is_stuck_def cancel_job_def)

lemma stuck_job_cleanup_idempotent:
  "stuck_job_cleanup now (fst (stuck_job_cleanup now d)) = (fst (stuck_job_cleanup now d), 0)"
proof -
  let ?c = "now - STUCK_THRESHOLD_HOURS * 3600"
  let ?u = "\<lambda>j. j\<lparr>status := Failed,
                     error_message := Some ''Auto-reset: job exceeded maximum runtime without completing'',
                     completed_at := Some now\<rparr>"
  have ns: "\<And>j. \<not> is_stuck ?c (if is_stuck ?c j then ?u j else j)"
    by (simp add: is_stuck_def)
  have mg: "\<And>js :: job list.
      map (\<lambda>j. if is_stuck ?c j then ?u j else j) (map (\<lambda>j. if is_stuck ?c j then ?u j else j) js)
        = map (\<lambda>j. if is_stuck ?c j then ?u j else j) js"
  proof -
    fix js :: "job list"
    show "map (\<lambda>j. if is_stuck ?c j then ?u j else j) (map (\<lambda>j. if is_stuck ?c j then ?u j else j) js)
        = map (\<lambda>j. if is_stuck ?c j then ?u j else j) js"
      by (induction js) (auto simp: is_stuck_def)
  qed
  have m: "map (\<lambda>j. if is_stuck ?c j then ?u j else j) (map (\<lambda>j. if is_stuck ?c j then ?u j else j) (jobs d))
           = map (\<lambda>j. if is_stuck ?c j then ?u j else j) (jobs d)"
    by (rule mg)
  have fg: "\<And>js :: job list. filter (is_stuck ?c) (map (\<lambda>j. if is_stuck ?c j then ?u j else j) js) = []"
  proof -
    fix js :: "job list"
    show "filter (is_stuck ?c) (map (\<lambda>j. if is_stuck ?c j then ?u j else j) js) = []"
      by (induction js) (auto simp: is_stuck_def)
  qed
  have f: "filter (is_stuck ?c) (map (\<lambda>j. if is_stuck ?c j then ?u j else j) (jobs d)) = []"
    by (rule fg)
  have A: "update_jobs (is_stuck ?c) ?u (update_jobs (is_stuck ?c) ?u d) = update_jobs (is_stuck ?c) ?u d"
    unfolding update_jobs_def using m by (simp del: map_map)
  have B: "length (filter (is_stuck ?c) (jobs (update_jobs (is_stuck ?c) ?u d))) = 0"
    unfolding update_jobs_def using f by (simp del: filter_map)
  show ?thesis
    unfolding stuck_job_cleanup_def Let_def fst_conv A B ..
qed

text \<open>
  Claim C1 fails on the code. Phase 3 of \<open>_run_job\<close> sets the status with no condition
  on the status it finds, unlike the two markers, the sweep and the cancellation. The
  sample job is cancelled while queued; the task is delivered all the same (revocation
  is best effort), and the run leaves the cancelled job completed. Likewise a job that
  the sweep has failed is completed by phase 3, and phase 1 sets a cancelled job
  running.
\<close>

theorem run_job_completes_cancelled_job:
  "(case cancel_job 3 7 1 queued_db of
      Inl e \<Rightarrow> None
    | Inr d \<Rightarrow>
        Some (map status (jobs d),
              map status (jobs (mark_running 5 ''task-1'' 1 d)),
              map status (jobs (fst (run_job sample_settings json_accepts sample_net sample_provider None
                                       5 9 ''task-1'' 1 7 d)))))
     = Some ([Cancelled], [Running], [Completed])
   \<and> map status (jobs (fst (stuck_job_cleanup 10000 queued_db))) = [Failed]
   \<and> map status (jobs (mark_complete 10001 1 (fst (stuck_job_cleanup 10000 queued_db)))) = [Completed]"
  by code_simp

text \<open>
  Claim C2 fails on the code. The success update sets the progress to the completed
  items over the total, the failure update to the completed and failed items over the
  total. In the sample batch the first two items fail and the third succeeds: the
  progress is 200/3 after the second item and 100/3 after the third. The two counters
  themselves only grow.
\<close>

theorem progress_pct_drops_after_success:
  "map (\<lambda>j. (completed_items j, failed_items j, progress_pct j))
     (jobs (fst (run_items sample_settings sample_agent json_accepts sample_net sample_provider None 1 7
                   Map.empty 0 [''a'', ''b''] (mark_running 5 ''task-1'' 1 queued_db))))
     = [(0, 2, 200 / 3)]
   \<and> map (\<lambda>j. (completed_items j, failed_items j, progress_pct j))
     (jobs (fst (run_items sample_settings sample_agent json_accepts sample_net sample_provider None 1 7
                   Map.empty 0 [''a'', ''b'', ''c''] (mark_running 5 ''task-1'' 1 queued_db))))
     = [(1, 2, 100 / 3)]
   \<and> (100 / 3 :: real) < 200 / 3"
  by code_simp

text \<open>
  Claim C3 fails on the code. The agent commits one result row and one usage row for
  an item; when it returns, the orchestrator adds a usage row of its own for the same
  item, each with one credit, while the job's \<open>credits_used\<close> grows by one. When the
  agent raises, the item gets the synthetic failed row and no usage row. In the sample
  batch the items \<open>a\<close> and \<open>b\<close> end with no usage row and the item \<open>c\<close> with two.
\<close>

theorem batch_item_has_two_usage_rows:
  "map (\<lambda>r. (input_name r, r_status r))
     (results (fst (run_job sample_settings json_accepts sample_net sample_provider None
                      5 9 ''task-1'' 1 7 queued_db)))
     = [(''a'', ''failed''), (''b'', ''failed''), (''c'', ''completed'')]
   \<and> map (\<lambda>u. (u_company u, u_source u, credits_consumed u))
     (usage_logs (fst (run_job sample_settings json_accepts sample_net sample_provider None
                         5 9 ''task-1'' 1 7 queued_db)))
     = [(''c'', ''agent'', 1), (''c'', ''batch_job'', 1)]
   \<and> map credits_used
     (jobs (fst (run_job sample_settings json_accepts sample_net sample_provider None
                   5 9 ''task-1'' 1 7 queued_db)))
     = [1]"
  by code_simp

end
